theory Spec2Isabelle
  imports Complex_Main
begin

section \<open>Python strings\<close>

text \<open>
  A Python \<^verbatim>\<open>str\<close> is modelled by its UTF-8 encoding, a \<^typ>\<open>string\<close>:
  an ASCII character is one byte below 128 and no other character contains such
  a byte, so equality, emptiness, the replacement of one ASCII character by
  another and the substring test are the same on the encodings as on the
  strings. \<^verbatim>\<open>None\<close> is the value \<^term>\<open>None\<close> of an option type.

  \<^verbatim>\<open>str.strip()\<close>, \<^verbatim>\<open>str.lower()\<close> and \<^verbatim>\<open>str.upper()\<close> are
  functions of the standard library, defined by the Unicode character database.
  On ASCII text they are the three functions defined here. On any other text
  they are parameters of the model, as is
  \<^verbatim>\<open>uuid.uuid5(uuid.NAMESPACE_DNS, key)\<close>, the standard library's name-based
  identifier, a fixed function of \<open>key\<close>. The record \<open>lib\<close> holds the four
  parameters; a statement with a free \<open>L\<close> is about every \<open>lib\<close>.
\<close>

definition is_ascii :: "char \<Rightarrow> bool" where
  "is_ascii c = (\<not> digit7 c)"

definition ascii_text :: "string \<Rightarrow> bool" where
  "ascii_text s = (\<forall>c \<in> set s. is_ascii c)"

text \<open>The ASCII characters for which \<^verbatim>\<open>str.isspace()\<close> holds.\<close>

definition ascii_isspace :: "char \<Rightarrow> bool" where
  "ascii_isspace c = (c \<in> set [CHR 0x09, CHR 0x0A, CHR 0x0B, CHR 0x0C, CHR 0x0D,
                                 CHR 0x1C, CHR 0x1D, CHR 0x1E, CHR 0x1F, CHR 0x20])"

definition ascii_strip :: "string \<Rightarrow> string" where
  "ascii_strip s = rev (dropWhile ascii_isspace (rev (dropWhile ascii_isspace s)))"

definition lower_char :: "char \<Rightarrow> char" where
  "lower_char c =
     (case map_of (zip ''ABCDEFGHIJKLMNOPQRSTUVWXYZ'' ''abcdefghijklmnopqrstuvwxyz'') c of
        Some d \<Rightarrow> d | None \<Rightarrow> c)"

definition upper_char :: "char \<Rightarrow> char" where
  "upper_char c =
     (case map_of (zip ''abcdefghijklmnopqrstuvwxyz'' ''ABCDEFGHIJKLMNOPQRSTUVWXYZ'') c of
        Some d \<Rightarrow> d | None \<Rightarrow> c)"

definition ascii_lower :: "string \<Rightarrow> string" where
  "ascii_lower s = map lower_char s"

definition ascii_upper :: "string \<Rightarrow> string" where
  "ascii_upper s = map upper_char s"

record lib =
  uuid5 :: "string \<Rightarrow> string"
  unicode_strip :: "string \<Rightarrow> string"
  unicode_lower :: "string \<Rightarrow> string"
  unicode_upper :: "string \<Rightarrow> string"

text \<open>\<^verbatim>\<open>s.strip()\<close>, \<^verbatim>\<open>s.lower()\<close> and \<^verbatim>\<open>s.upper()\<close>.\<close>

definition strip :: "lib \<Rightarrow> string \<Rightarrow> string" where
  "strip L s = (if ascii_text s then ascii_strip s else unicode_strip L s)"

definition lower :: "lib \<Rightarrow> string \<Rightarrow> string" where
  "lower L s = (if ascii_text s then ascii_lower s else unicode_lower L s)"

definition upper :: "lib \<Rightarrow> string \<Rightarrow> string" where
  "upper L s = (if ascii_text s then ascii_upper s else unicode_upper L s)"

text \<open>\<^verbatim>\<open>s.replace(" ", "_")\<close>: both arguments are single characters.\<close>

definition replace_char :: "char \<Rightarrow> char \<Rightarrow> string \<Rightarrow> string" where
  "replace_char a b s = map (\<lambda>c. if c = a then b else c) s"

text \<open>\<^verbatim>\<open>w in s\<close>: \<open>w\<close> occurs in \<open>s\<close> as a contiguous substring.\<close>

fun contains :: "string \<Rightarrow> string \<Rightarrow> bool" where
  "contains w [] = (w = [])"
| "contains w (c # cs) = (take (length w) (c # cs) = w \<or> contains w cs)"

section \<open>Stage D: entity resolution\<close>

subsection \<open>Type inference\<close>

text \<open>
  The chat-completion call is an external collaborator. One call either raises
  or returns a message whose \<^verbatim>\<open>content\<close> is a string or \<^verbatim>\<open>None\<close>.
  The collaborator is a parameter of the model: it maps the number of calls the
  service has made so far and the entity name to the outcome of the call, so two
  calls with the same name may be answered differently.
\<close>

datatype llm_reply = Raises | Content "string option"

type_synonym llm = "nat \<Rightarrow> string \<Rightarrow> llm_reply"

definition VALID_LABELS :: "string set" where
  "VALID_LABELS = {''Person'', ''Company'', ''Product'', ''Event'', ''Entity''}"

definition heuristic_type :: "lib \<Rightarrow> string \<Rightarrow> string" where
  "heuristic_type L name =
     (if name = [] then ''Entity''
      else let name_lower = lower L name in
        if \<exists>w \<in> set [''inc'', ''corp'', ''company'', ''bank'', ''fund'']. contains w name_lower
          then ''Company''
        else if \<exists>w \<in> set [''mr'', ''dr'', ''ceo'', ''president'']. contains w name_lower
          then ''Person''
        else ''Entity'')"

text \<open>
  \<^verbatim>\<open>infer_type_llm\<close>: everything after the prompt is inside
  \<^verbatim>\<open>try ... except:\<close>, so a raising call and a \<^verbatim>\<open>None\<close> content
  (on which \<^verbatim>\<open>.strip()\<close> raises) both end in the handler.
\<close>

definition infer_type_llm :: "lib \<Rightarrow> llm_reply \<Rightarrow> string \<Rightarrow> string" where
  "infer_type_llm L reply name =
     (case reply of
        Content (Some content) \<Rightarrow>
          (let label = strip L content in
           if label \<in> VALID_LABELS then label else ''Entity'')
      | Content None \<Rightarrow> heuristic_type L name
      | Raises \<Rightarrow> heuristic_type L name)"

subsection \<open>Identifiers\<close>

text \<open>
  The service object is its cache and the number of classifier calls made.
  The identifier of a new key is \<open>uuid5\<close> of the key.
\<close>

record service =
  entity_cache :: "string \<rightharpoonup> string"
  llm_calls :: nat

definition new_service :: service where
  "new_service = \<lparr>entity_cache = Map.empty, llm_calls = 0\<rparr>"

definition get_or_create_entity_id ::
  "lib \<Rightarrow> service \<Rightarrow> string \<Rightarrow> string option \<times> service" where
  "get_or_create_entity_id L sv name =
     (let key = lower L (strip L name) in
      if key = [] then (None, sv)
      else
        let sv' = (if entity_cache sv key = None
                   then sv\<lparr>entity_cache := (entity_cache sv)(key \<mapsto> uuid5 L key)\<rparr>
                   else sv)
        in (entity_cache sv' key, sv'))"

subsection \<open>Cleaning one extraction record\<close>

text \<open>
  One row of the extraction table: the entity mentions, the raw triples (each
  component a string or \<^verbatim>\<open>None\<close>) and the provenance columns. The
  rows are typed as the extraction stage's records are; a cell of another type
  (a mention list that is not a list, a component that is a number) is outside
  the model. A
  confidence is a Python float; the only one the stage produces is the literal
  \<^verbatim>\<open>0.9\<close>, modelled as the rational it denotes.
\<close>

record triple =
  subject :: "string option"
  relation :: "string option"
  object :: "string option"

record extraction_row =
  entities :: "string list"
  relations :: "triple list"
  row_source :: "string option"
  row_article_id :: "string option"
  row_published_at :: "string option"

record canonical_entity =
  ent_id :: "string option"
  ent_name :: string
  ent_label :: string
  ent_source :: "string option"
  ent_article_id :: "string option"
  ent_published_at :: "string option"

record canonical_relation =
  start_id :: "string option"
  end_id :: "string option"
  rel_type :: string
  confidence :: rat
  rel_article_id :: "string option"
  rel_source :: "string option"
  rel_published_at :: "string option"

text \<open>Python truthiness of a value that is a string or \<^verbatim>\<open>None\<close>.\<close>

definition truthy :: "string option \<Rightarrow> bool" where
  "truthy v = (case v of None \<Rightarrow> False | Some s \<Rightarrow> s \<noteq> [])"

text \<open>The first loop of \<^verbatim>\<open>clean_extraction_row\<close>, over the mentions.\<close>

fun clean_entities ::
  "lib \<Rightarrow> llm \<Rightarrow> extraction_row \<Rightarrow> service \<Rightarrow> string list
     \<Rightarrow> canonical_entity list \<times> service" where
  "clean_entities L client row sv [] = ([], sv)"
| "clean_entities L client row sv (e # es) =
     (let e_str = strip L e in
      if e_str = [] then clean_entities L client row sv es
      else
        let (e_id, sv1) = get_or_create_entity_id L sv e_str;
            e_type = infer_type_llm L (client (llm_calls sv1) e_str) e_str;
            sv2 = sv1\<lparr>llm_calls := Suc (llm_calls sv1)\<rparr>;
            (rest, sv3) = clean_entities L client row sv2 es
        in (\<lparr>ent_id = e_id, ent_name = e_str, ent_label = e_type,
              ent_source = row_source row, ent_article_id = row_article_id row,
              ent_published_at = row_published_at row\<rparr> # rest, sv3))"

text \<open>The second loop, over the triples.\<close>

fun clean_relations ::
  "lib \<Rightarrow> extraction_row \<Rightarrow> service \<Rightarrow> triple list
     \<Rightarrow> canonical_relation list \<times> service" where
  "clean_relations L row sv [] = ([], sv)"
| "clean_relations L row sv (r # rs) =
     (if \<not> (truthy (subject r) \<and> truthy (object r) \<and> truthy (relation r))
      then clean_relations L row sv rs
      else
        let (sid, sv1) = get_or_create_entity_id L sv (the (subject r));
            (oid, sv2) = get_or_create_entity_id L sv1 (the (object r));
            (rest, sv3) = clean_relations L row sv2 rs
        in (\<lparr>start_id = sid, end_id = oid,
              rel_type = replace_char CHR '' '' CHR ''_'' (upper L (the (relation r))),
              confidence = 9 / 10, rel_article_id = row_article_id row,
              rel_source = row_source row, rel_published_at = row_published_at row\<rparr> # rest,
            sv3))"

record cleaned =
  cl_entities :: "canonical_entity list"
  cl_relations :: "canonical_relation list"

definition clean_extraction_row ::
  "lib \<Rightarrow> llm \<Rightarrow> service \<Rightarrow> extraction_row \<Rightarrow> cleaned \<times> service" where
  "clean_extraction_row L client sv row =
     (let (entity_objs, sv1) = clean_entities L client row sv (entities row);
          (relation_objs, sv2) = clean_relations L row sv1 (relations row)
      in (\<lparr>cl_entities = entity_objs, cl_relations = relation_objs\<rparr>, sv2))"

subsection \<open>The resolution run\<close>

text \<open>
  \<^verbatim>\<open>DataFrame.drop_duplicates(subset=...)\<close> with the default
  \<^verbatim>\<open>keep="first"\<close>: a row is dropped when an earlier row has the same
  values in the subset columns. Missing values compare equal to each other. An
  empty frame is returned as it is.
\<close>

fun drop_dups :: "('a \<Rightarrow> 'k) \<Rightarrow> 'k list \<Rightarrow> 'a list \<Rightarrow> 'a list" where
  "drop_dups key seen [] = []"
| "drop_dups key seen (x # xs) =
     (if key x \<in> set seen then drop_dups key seen xs
      else x # drop_dups key (key x # seen) xs)"

definition drop_duplicates :: "('a \<Rightarrow> 'k) \<Rightarrow> 'a list \<Rightarrow> 'a list" where
  "drop_duplicates key xs = drop_dups key [] xs"

text \<open>The loop over the rows of the extraction table, extending both lists.\<close>

fun collect_rows ::
  "lib \<Rightarrow> llm \<Rightarrow> service \<Rightarrow> extraction_row list
     \<Rightarrow> (canonical_entity list \<times> canonical_relation list) \<times> service" where
  "collect_rows L client sv [] = (([], []), sv)"
| "collect_rows L client sv (row # rows) =
     (let (cleaned, sv1) = clean_extraction_row L client sv row;
          ((all_entities, all_relations), sv2) = collect_rows L client sv1 rows
      in ((cl_entities cleaned @ all_entities, cl_relations cleaned @ all_relations), sv2))"

definition rel_key :: "canonical_relation \<Rightarrow> string option \<times> string option \<times> string" where
  "rel_key r = (start_id r, end_id r, rel_type r)"

text \<open>The dictionary \<^verbatim>\<open>{"nodes": nodes_df, "relations": rels_df}\<close>.\<close>

record graph_batch =
  batch_nodes :: "canonical_entity list"
  batch_relations :: "canonical_relation list"

definition run_resolution ::
  "lib \<Rightarrow> llm \<Rightarrow> service \<Rightarrow> extraction_row list \<Rightarrow> graph_batch \<times> service" where
  "run_resolution L client sv df =
     (let ((all_entities, all_relations), sv1) = collect_rows L client sv df
      in (\<lparr>batch_nodes = drop_duplicates ent_id all_entities,
            batch_relations = drop_duplicates rel_key all_relations\<rparr>, sv1))"

section \<open>Stage E: loading into the graph store\<close>

subsection \<open>Staged files\<close>

text \<open>
  \<^verbatim>\<open>DataFrame.to_csv(path, index=False)\<close> writes one line per record, a
  missing value or an empty string as an empty cell; \<^verbatim>\<open>LOAD CSV WITH HEADERS\<close>
  reads every line back as a row whose empty cells are \<^verbatim>\<open>null\<close>. A staged
  file is modelled by the rows the query will see, a cell being \<open>None\<close> for
  \<^verbatim>\<open>null\<close>. The confidence cell holds the decimal text of a number;
  it is modelled by that number.
\<close>

record node_row =
  n_id :: "string option"
  n_name :: "string option"
  n_label :: "string option"
  n_source :: "string option"
  n_article_id :: "string option"
  n_published_at :: "string option"

record rel_row =
  r_start_id :: "string option"
  r_end_id :: "string option"
  r_type :: "string option"
  r_confidence :: "rat option"
  r_article_id :: "string option"
  r_source :: "string option"
  r_published_at :: "string option"

datatype csv_file = NodesFile "node_row list" | RelationsFile "rel_row list"

definition cell :: "string option \<Rightarrow> string option" where
  "cell v = (case v of None \<Rightarrow> None | Some s \<Rightarrow> if s = [] then None else Some s)"

definition node_to_row :: "canonical_entity \<Rightarrow> node_row" where
  "node_to_row e =
     \<lparr>n_id = cell (ent_id e), n_name = cell (Some (ent_name e)),
      n_label = cell (Some (ent_label e)), n_source = cell (ent_source e),
      n_article_id = cell (ent_article_id e), n_published_at = cell (ent_published_at e)\<rparr>"

definition rel_to_row :: "canonical_relation \<Rightarrow> rel_row" where
  "rel_to_row r =
     \<lparr>r_start_id = cell (start_id r), r_end_id = cell (end_id r),
      r_type = cell (Some (rel_type r)), r_confidence = Some (confidence r),
      r_article_id = cell (rel_article_id r), r_source = cell (rel_source r),
      r_published_at = cell (rel_published_at r)\<rparr>"

text \<open>
  The columns a query reads by name. A column the file does not have reads as
  \<^verbatim>\<open>null\<close>; the two kinds of file share the three provenance columns.
\<close>

definition as_node_rows :: "csv_file \<Rightarrow> node_row list" where
  "as_node_rows f =
     (case f of
        NodesFile rows \<Rightarrow> rows
      | RelationsFile rows \<Rightarrow>
          map (\<lambda>r. \<lparr>n_id = None, n_name = None, n_label = None, n_source = r_source r,
                     n_article_id = r_article_id r, n_published_at = r_published_at r\<rparr>) rows)"

definition as_rel_rows :: "csv_file \<Rightarrow> rel_row list" where
  "as_rel_rows f =
     (case f of
        RelationsFile rows \<Rightarrow> rows
      | NodesFile rows \<Rightarrow>
          map (\<lambda>n. \<lparr>r_start_id = None, r_end_id = None, r_type = None, r_confidence = None,
                     r_article_id = n_article_id n, r_source = n_source n,
                     r_published_at = n_published_at n\<rparr>) rows)"

subsection \<open>The property graph\<close>

text \<open>
  A node has a set of labels and properties; a relationship joins two nodes, has
  one type and properties. Nodes are never deleted by the loader, so a node is
  identified by its position in the list of nodes.
\<close>

datatype val = S string | F rat

record gnode =
  labels :: "string set"
  props :: "string \<rightharpoonup> val"

record grel =
  src :: nat
  tgt :: nat
  rtype :: string
  rprops :: "string \<rightharpoonup> val"

record graph =
  gnodes :: "gnode list"
  grels :: "grel list"

definition empty_graph :: graph where
  "empty_graph = \<lparr>gnodes = [], grels = []\<rparr>"

text \<open>
  A query processes the rows of the file in order inside one transaction: an
  error in any row fails the query and nothing of it is kept. Each row is taken
  through all clauses of the query before the next row. No clause of the two
  queries changes what an earlier clause of the same query reads (the
  \<^verbatim>\<open>id\<close> property, and the \<^verbatim>\<open>Entity\<close> label of a node that lacks
  it), so taking all rows through one clause before the next clause gives the
  same graph.
\<close>

fun run_rows :: "('r \<Rightarrow> graph \<Rightarrow> graph option) \<Rightarrow> 'r list \<Rightarrow> graph \<Rightarrow> graph option" where
  "run_rows step [] g = Some g"
| "run_rows step (r # rs) g =
     (case step r g of None \<Rightarrow> None | Some g' \<Rightarrow> run_rows step rs g')"

subsection \<open>The node query\<close>

text \<open>
  For one row of \<^verbatim>\<open>load_nodes_csv\<close>:
  \<^verbatim>\<open>MERGE (n:Entity {id: row.id})\<close> binds \<open>n\<close> to every node with label
  \<^verbatim>\<open>Entity\<close> whose \<^verbatim>\<open>id\<close> equals the cell, and creates such a node when
  there is none; merging on a \<^verbatim>\<open>null\<close> property is an error.
  \<^verbatim>\<open>SET\<close> overwrites the five properties (a \<^verbatim>\<open>null\<close> removes the
  property), and \<^verbatim>\<open>apoc.create.addLabels(n, [row.label])\<close> adds the label,
  failing on \<^verbatim>\<open>null\<close>.
\<close>

definition merge_matches :: "string \<Rightarrow> gnode \<Rightarrow> bool" where
  "merge_matches i n = (''Entity'' \<in> labels n \<and> props n ''id'' = Some (S i))"

definition set_node :: "node_row \<Rightarrow> string \<Rightarrow> gnode \<Rightarrow> gnode" where
  "set_node row l n =
     \<lparr>labels = insert l (labels n),
      props = (props n)
        (''name'' := map_option S (n_name row),
         ''label'' := map_option S (n_label row),
         ''source'' := map_option S (n_source row),
         ''article_id'' := map_option S (n_article_id row),
         ''published_at'' := map_option S (n_published_at row))\<rparr>"

definition node_step :: "node_row \<Rightarrow> graph \<Rightarrow> graph option" where
  "node_step row g =
     (case n_id row of
        None \<Rightarrow> None
      | Some i \<Rightarrow>
          let ns = (if \<exists>n \<in> set (gnodes g). merge_matches i n then gnodes g
                    else gnodes g @ [\<lparr>labels = {''Entity''}, props = [''id'' \<mapsto> S i]\<rparr>])
          in (case n_label row of
                None \<Rightarrow> None
              | Some l \<Rightarrow>
                  Some (g\<lparr>gnodes :=
                          map (\<lambda>n. if merge_matches i n then set_node row l n else n) ns\<rparr>)))"

subsection \<open>The relationship query\<close>

text \<open>
  For one row of \<^verbatim>\<open>load_relationships_csv\<close>: the two \<^verbatim>\<open>MATCH\<close>
  clauses bind \<open>source\<close> and \<open>target\<close> to every pair of nodes, of any label,
  whose \<^verbatim>\<open>id\<close> equals the two cells; a \<^verbatim>\<open>null\<close> cell equals nothing.
  A row with no such pair passes through the rest of the query zero times.
  For each pair, \<^verbatim>\<open>apoc.merge.relationship\<close> looks for a relationship of
  the given type between the two nodes whose properties equal the four identifying
  ones and creates it when there is none (the map of properties to set on creation
  is empty); a \<^verbatim>\<open>null\<close> type or a \<^verbatim>\<open>null\<close> identifying property
  is an error.
\<close>

definition has_id :: "string option \<Rightarrow> gnode \<Rightarrow> bool" where
  "has_id v n = (case v of None \<Rightarrow> False | Some i \<Rightarrow> props n ''id'' = Some (S i))"

definition matched :: "string option \<Rightarrow> graph \<Rightarrow> nat list" where
  "matched v g = filter (\<lambda>k. has_id v (gnodes g ! k)) [0..<length (gnodes g)]"

definition ident_keys :: "string list" where
  "ident_keys = [''confidence'', ''source'', ''article_id'', ''published_at'']"

definition ident_props :: "rel_row \<Rightarrow> string \<rightharpoonup> val" where
  "ident_props row =
     [''confidence'' \<mapsto> F (case r_confidence row of None \<Rightarrow> 1 | Some c \<Rightarrow> c)]
       (''source'' := map_option S (r_source row),
        ''article_id'' := map_option S (r_article_id row),
        ''published_at'' := map_option S (r_published_at row))"

definition rel_matches :: "nat \<Rightarrow> nat \<Rightarrow> string \<Rightarrow> (string \<rightharpoonup> val) \<Rightarrow> grel \<Rightarrow> bool" where
  "rel_matches s t ty ident r =
     (src r = s \<and> tgt r = t \<and> rtype r = ty \<and> (\<forall>k \<in> set ident_keys. rprops r k = ident k))"

definition merge_relationship ::
  "string \<Rightarrow> (string \<rightharpoonup> val) \<Rightarrow> nat \<times> nat \<Rightarrow> graph \<Rightarrow> graph" where
  "merge_relationship ty ident p g =
     (if \<exists>r \<in> set (grels g). rel_matches (fst p) (snd p) ty ident r then g
      else g\<lparr>grels := grels g @ [\<lparr>src = fst p, tgt = snd p, rtype = ty, rprops = ident\<rparr>]\<rparr>)"

definition rel_step :: "rel_row \<Rightarrow> graph \<Rightarrow> graph option" where
  "rel_step row g =
     (let pairs = List.product (matched (r_start_id row) g) (matched (r_end_id row) g) in
      if pairs = [] then Some g
      else (case r_type row of
              None \<Rightarrow> None
            | Some ty \<Rightarrow>
                if \<exists>k \<in> set ident_keys. ident_props row k = None then None
                else Some (fold (merge_relationship ty (ident_props row)) pairs g)))"

subsection \<open>The loader\<close>

text \<open>
  The loader acts on the local file system, the import directory of the store's
  container and the graph. \<open>events\<close> records the external actions in the order
  they are attempted. What the outside world answers in one execution of
  \<^verbatim>\<open>run_loading\<close> (the clock, whether a file can be written, how
  \<^verbatim>\<open>docker cp\<close> ends, whether a session with the store can be opened and
  the query sent) is the \<open>env\<close> the execution runs in.
\<close>

datatype event =
    ToCsv string
  | DockerCp string string
  | NodesQuery string
  | RelationshipsQuery string

record world =
  files :: "string \<rightharpoonup> csv_file"
  import_files :: "string \<rightharpoonup> csv_file"
  db :: graph
  events :: "event list"

datatype cp_outcome = CpDone | CalledProcessError | OtherError

record env =
  base_data_dir :: string
  timestamp :: string
  nodes_to_csv_ok :: bool
  rels_to_csv_ok :: bool
  nodes_cp :: cp_outcome
  rels_cp :: cp_outcome
  nodes_session_ok :: bool
  rels_session_ok :: bool

text \<open>A call returns a value or raises an exception it does not catch.\<close>

datatype 'a outcome = Returned 'a | Raised

definition to_csv :: "bool \<Rightarrow> string \<Rightarrow> csv_file \<Rightarrow> world \<Rightarrow> unit outcome \<times> world" where
  "to_csv ok path f w =
     (let w' = w\<lparr>events := events w @ [ToCsv path]\<rparr> in
      if ok then (Returned (), w'\<lparr>files := (files w)(path \<mapsto> f)\<rparr>) else (Raised, w'))"

text \<open>
  \<^verbatim>\<open>copy_to_docker\<close> catches \<^verbatim>\<open>CalledProcessError\<close> only, which is
  also how \<^verbatim>\<open>docker cp\<close> of a file that does not exist ends.
\<close>

definition copy_to_docker ::
  "cp_outcome \<Rightarrow> string \<Rightarrow> string \<Rightarrow> world \<Rightarrow> string option outcome \<times> world" where
  "copy_to_docker oc src_path dst_name w =
     (let w' = w\<lparr>events := events w @ [DockerCp src_path dst_name]\<rparr> in
      case oc of
        OtherError \<Rightarrow> (Raised, w')
      | CalledProcessError \<Rightarrow> (Returned None, w')
      | CpDone \<Rightarrow>
          (case files w src_path of
             None \<Rightarrow> (Returned None, w')
           | Some f \<Rightarrow>
               (Returned (Some dst_name),
                w'\<lparr>import_files := (import_files w)(dst_name \<mapsto> f)\<rparr>)))"

text \<open>
  Both loading functions catch every exception of the session and of the query
  and return \<^verbatim>\<open>False\<close>; the query reads the file from the import directory.
\<close>

definition load_nodes_csv :: "bool \<Rightarrow> string \<Rightarrow> world \<Rightarrow> bool \<times> world" where
  "load_nodes_csv session_ok csv_path w =
     (let w' = w\<lparr>events := events w @ [NodesQuery csv_path]\<rparr> in
      if \<not> session_ok then (False, w')
      else case import_files w csv_path of
             None \<Rightarrow> (False, w')
           | Some f \<Rightarrow>
               (case run_rows node_step (as_node_rows f) (db w) of
                  None \<Rightarrow> (False, w')
                | Some g \<Rightarrow> (True, w'\<lparr>db := g\<rparr>)))"

definition load_relationships_csv :: "bool \<Rightarrow> string \<Rightarrow> world \<Rightarrow> bool \<times> world" where
  "load_relationships_csv session_ok csv_path w =
     (let w' = w\<lparr>events := events w @ [RelationshipsQuery csv_path]\<rparr> in
      if \<not> session_ok then (False, w')
      else case import_files w csv_path of
             None \<Rightarrow> (False, w')
           | Some f \<Rightarrow>
               (case run_rows rel_step (as_rel_rows f) (db w) of
                  None \<Rightarrow> (False, w')
                | Some g \<Rightarrow> (True, w'\<lparr>db := g\<rparr>)))"

definition nodes_csv :: "env \<Rightarrow> string" where
  "nodes_csv e = base_data_dir e @ ''/neo4j_ready/nodes_'' @ timestamp e @ ''.csv''"

definition rels_csv :: "env \<Rightarrow> string" where
  "rels_csv e = base_data_dir e @ ''/neo4j_ready/relations_'' @ timestamp e @ ''.csv''"

definition run_loading :: "env \<Rightarrow> graph_batch \<Rightarrow> world \<Rightarrow> bool outcome \<times> world" where
  "run_loading e neo4j_data w =
     (case to_csv (nodes_to_csv_ok e) (nodes_csv e)
             (NodesFile (map node_to_row (batch_nodes neo4j_data))) w of
        (Raised, w1) \<Rightarrow> (Raised, w1)
      | (Returned _, w1) \<Rightarrow>
     (case to_csv (rels_to_csv_ok e) (rels_csv e)
             (RelationsFile (map rel_to_row (batch_relations neo4j_data))) w1 of
        (Raised, w2) \<Rightarrow> (Raised, w2)
      | (Returned _, w2) \<Rightarrow>
     (case copy_to_docker (nodes_cp e) (nodes_csv e) ''nodes_latest.csv'' w2 of
        (Raised, w3) \<Rightarrow> (Raised, w3)
      | (Returned nodes_docker, w3) \<Rightarrow>
     (case copy_to_docker (rels_cp e) (rels_csv e) ''relations_latest.csv'' w3 of
        (Raised, w4) \<Rightarrow> (Raised, w4)
      | (Returned rels_docker, w4) \<Rightarrow>
          if nodes_docker \<noteq> None \<and> rels_docker \<noteq> None then
            (case load_nodes_csv (nodes_session_ok e) ''nodes_latest.csv'' w4 of
               (False, w5) \<Rightarrow> (Returned False, w5)
             | (True, w5) \<Rightarrow>
                 (case load_relationships_csv (rels_session_ok e) ''relations_latest.csv'' w5 of
                    (False, w6) \<Rightarrow> (Returned False, w6)
                  | (True, w6) \<Rightarrow> (Returned True, w6)))
          else (Returned False, w4)))))"

section \<open>The web application: starting the pipeline\<close>

text \<open>
  The global \<^verbatim>\<open>pipeline_status\<close> dictionary, and the threads the handler
  has started, each with the arguments of \<^verbatim>\<open>run_pipeline_async\<close>. The
  body of a request is a JSON object or absent.
\<close>

record stats_rec =
  articles_collected :: int
  chunks_created :: int
  entities_extracted :: int
  nodes_created :: int
  relationships_created :: int

record status =
  running :: bool
  current_stage :: string
  stage_name :: string
  progress :: int
  message :: string
  error :: string
  completed :: bool
  stats :: stats_rec

record app =
  pipeline_status :: status
  threads :: "(int \<times> bool) list"

record params =
  sample_size :: "int option"
  run_ingestion :: "bool option"

datatype body = ErrorBody string | SuccessBody string

definition start_pipeline :: "params option \<Rightarrow> app \<Rightarrow> (body \<times> nat) \<times> app" where
  "start_pipeline json a =
     (if running (pipeline_status a) then
        ((ErrorBody ''Pipeline is already running'', 400), a)
      else
        let data = (case json of None \<Rightarrow> \<lparr>sample_size = None, run_ingestion = None\<rparr>
                    | Some d \<Rightarrow> d);
            size = (case sample_size data of None \<Rightarrow> 50 | Some n \<Rightarrow> n);
            ingest = (case run_ingestion data of None \<Rightarrow> True | Some b \<Rightarrow> b)
        in ((SuccessBody ''Pipeline started successfully'', 200),
            \<lparr>pipeline_status =
               \<lparr>running = True, current_stage = ''Starting'', stage_name = ''Initializing'',
                progress = 0, message = ''Starting pipeline...'', error = [],
                completed = False,
                stats = \<lparr>articles_collected = 0, chunks_created = 0, entities_extracted = 0,
                         nodes_created = 0, relationships_created = 0\<rparr>\<rparr>,
             threads = threads a @ [(size, ingest)]\<rparr>))"

section \<open>Notions used in the statements\<close>

text \<open>
  The identifier a name resolves to, as a function of the name alone, and the
  invariant of the cache that makes the service agree with it: every cached
  identifier is the one \<open>uuid5\<close> gives for its key.
\<close>

definition resolve :: "lib \<Rightarrow> string \<Rightarrow> string option" where
  "resolve L name =
     (let key = lower L (strip L name) in if key = [] then None else Some (uuid5 L key))"

definition cache_ok :: "lib \<Rightarrow> service \<Rightarrow> bool" where
  "cache_ok L sv = (\<forall>k v. entity_cache sv k = Some v \<longrightarrow> v = uuid5 L k)"

text \<open>The service after resolving a list of names, one call after the other.\<close>

fun resolve_many :: "lib \<Rightarrow> service \<Rightarrow> string list \<Rightarrow> service" where
  "resolve_many L sv [] = sv"
| "resolve_many L sv (n # ns) =
     resolve_many L (snd (get_or_create_entity_id L sv n)) ns"

text \<open>
  The record the second loop of \<^verbatim>\<open>clean_extraction_row\<close> appends for a
  triple it does not skip, and the service after that iteration.
\<close>

definition emitted ::
  "lib \<Rightarrow> extraction_row \<Rightarrow> service \<Rightarrow> triple \<Rightarrow> canonical_relation" where
  "emitted L row sv r =
     \<lparr>start_id = fst (get_or_create_entity_id L sv (the (subject r))),
      end_id = fst (get_or_create_entity_id L
                 (snd (get_or_create_entity_id L sv (the (subject r)))) (the (object r))),
      rel_type = replace_char CHR '' '' CHR ''_'' (upper L (the (relation r))),
      confidence = 9 / 10, rel_article_id = row_article_id row,
      rel_source = row_source row, rel_published_at = row_published_at row\<rparr>"

definition after_triple :: "lib \<Rightarrow> service \<Rightarrow> triple \<Rightarrow> service" where
  "after_triple L sv r =
     snd (get_or_create_entity_id L
            (snd (get_or_create_entity_id L sv (the (subject r)))) (the (object r)))"

text \<open>
  A library on which statements are evaluated on examples. Its \<open>uuid5\<close> is
  injective, as the name-based identifiers are taken to be. Off ASCII it leaves
  every byte that is not an ASCII one as it is, which is what Python does on the
  one name with a character outside ASCII used below, the German word
  \<^verbatim>\<open>Strasse\<close> written with a sharp s (the bytes C3 9F) for the two
  letters s: the name has no whitespace to strip and \<^verbatim>\<open>str.lower()\<close>
  keeps the sharp s.
\<close>

definition example_lib :: lib where
  "example_lib =
     \<lparr>uuid5 = (\<lambda>key. ''uuid-'' @ key), unicode_strip = ascii_strip,
      unicode_lower = ascii_lower, unicode_upper = ascii_upper\<rparr>"

definition strasse_sharp_s :: string where
  "strasse_sharp_s = ''Stra'' @ [CHR 0xC3, CHR 0x9F] @ ''e''"

text \<open>
  \<^verbatim>\<open>str.casefold()\<close> on text whose only character outside ASCII is the
  sharp s: ASCII letters are lower-cased and the sharp s (the bytes C3 9F)
  becomes \<^verbatim>\<open>ss\<close>. It is not used by the program; the claim about
  identifiers speaks of it.
\<close>

fun casefold_sharp_s :: "string \<Rightarrow> string" where
  "casefold_sharp_s (c # d # cs) =
     (if c = CHR 0xC3 \<and> d = CHR 0x9F then ''ss'' @ casefold_sharp_s cs
      else lower_char c # casefold_sharp_s (d # cs))"
| "casefold_sharp_s [c] = [lower_char c]"
| "casefold_sharp_s [] = []"

text \<open>A classifier whose every call fails, and a small extraction table.\<close>

definition failing_client :: llm where
  "failing_client n name = Raises"

definition example_triple :: triple where
  "example_triple =
     \<lparr>subject = Some ''Apple'', relation = Some ''HAS CEO'', object = Some ''Tim Cook''\<rparr>"

definition blank_triple :: triple where
  "blank_triple =
     \<lparr>subject = Some ''  '', relation = Some ''HAS CEO'', object = Some ''Tim Cook''\<rparr>"

definition blank_object_triple :: triple where
  "blank_object_triple =
     \<lparr>subject = Some ''Apple'', relation = Some ''HAS CEO'', object = Some ''  ''\<rparr>"

definition example_df :: "extraction_row list" where
  "example_df =
     [\<lparr>entities = [''Apple'', ''apple ''], relations = [example_triple, example_triple],
       row_source = Some ''feed-a'', row_article_id = Some ''1'', row_published_at = None\<rparr>,
      \<lparr>entities = ['' APPLE''], relations = [example_triple, blank_triple],
       row_source = Some ''feed-b'', row_article_id = Some ''2'', row_published_at = None\<rparr>]"

text \<open>An application in the middle of a run.\<close>

definition example_app :: app where
  "example_app =
     \<lparr>pipeline_status =
        \<lparr>running = True, current_stage = ''C'', stage_name = ''Entity Extraction'',
         progress = 50, message = ''Extracting entities and relationships...'', error = [],
         completed = False,
         stats = \<lparr>articles_collected = 12, chunks_created = 40, entities_extracted = 0,
                  nodes_created = 0, relationships_created = 0\<rparr>\<rparr>,
      threads = [(50, True)]\<rparr>"

text \<open>
  The external actions of one execution of \<^verbatim>\<open>run_loading\<close>, in the order
  of the program text, and the two phases as functions of the graph: the node
  query on the rows of the batch's nodes, the relationship query on the rows of
  its relations, each failing when its session fails.
\<close>

definition load_events :: "env \<Rightarrow> event list" where
  "load_events e =
     [ToCsv (nodes_csv e), ToCsv (rels_csv e),
      DockerCp (nodes_csv e) ''nodes_latest.csv'',
      DockerCp (rels_csv e) ''relations_latest.csv'',
      NodesQuery ''nodes_latest.csv'',
      RelationshipsQuery ''relations_latest.csv'']"

definition new_events :: "world \<Rightarrow> world \<Rightarrow> event list" where
  "new_events w w' = drop (length (events w)) (events w')"

definition node_phase :: "env \<Rightarrow> graph_batch \<Rightarrow> graph \<Rightarrow> graph option" where
  "node_phase e b g =
     (if nodes_session_ok e then run_rows node_step (map node_to_row (batch_nodes b)) g
      else None)"

definition rel_phase :: "env \<Rightarrow> graph_batch \<Rightarrow> graph \<Rightarrow> graph option" where
  "rel_phase e b g =
     (if rels_session_ok e then run_rows rel_step (map rel_to_row (batch_relations b)) g
      else None)"



definition staged :: "env \<Rightarrow> bool" where
  "staged e = (nodes_to_csv_ok e \<and> rels_to_csv_ok e \<and> nodes_cp e = CpDone \<and> rels_cp e = CpDone)"

text \<open>
  What the queries can see of the nodes when they match: the \<^verbatim>\<open>id\<close>
  property of every node, in order. A set of node rows is covered by a graph when
  every row's \<^verbatim>\<open>MERGE\<close> finds a node; a relationship row is closed in a
  graph when every pair of nodes it matches is already joined by the
  relationship it merges. \<open>rel_error\<close> is the condition under which a
  relationship row fails.
\<close>

definition idview :: "graph \<Rightarrow> val option list" where
  "idview g = map (\<lambda>n. props n ''id'') (gnodes g)"


definition pairs :: "rel_row \<Rightarrow> graph \<Rightarrow> (nat \<times> nat) list" where
  "pairs row g = List.product (matched (r_start_id row) g) (matched (r_end_id row) g)"

definition closed_row :: "rel_row \<Rightarrow> graph \<Rightarrow> bool" where
  "closed_row row g =
     (\<forall>p \<in> set (pairs row g). \<exists>r \<in> set (grels g).
        rel_matches (fst p) (snd p) (the (r_type row)) (ident_props row) r)"

definition rel_error :: "rel_row \<Rightarrow> graph \<Rightarrow> bool" where
  "rel_error row g =
     (pairs row g \<noteq> [] \<and>
      (r_type row = None \<or> (\<exists>k \<in> set ident_keys. ident_props row k = None)))"

text \<open>
  A batch of two nodes and two relations, the second relation ending at an id no
  node has; an execution in which every external action works; a world with an
  empty store.
\<close>

definition example_batch :: graph_batch where
  "example_batch =
     \<lparr>batch_nodes =
        [\<lparr>ent_id = Some ''uuid-apple'', ent_name = ''Apple'', ent_label = ''Company'',
          ent_source = Some ''feed-a'', ent_article_id = Some ''1'',
          ent_published_at = Some ''2025-01-01''\<rparr>,
         \<lparr>ent_id = Some ''uuid-tim cook'', ent_name = ''Tim Cook'', ent_label = ''Person'',
          ent_source = Some ''feed-a'', ent_article_id = Some ''1'',
          ent_published_at = Some ''2025-01-01''\<rparr>],
      batch_relations =
        [\<lparr>start_id = Some ''uuid-apple'', end_id = Some ''uuid-tim cook'',
          rel_type = ''HAS_CEO'', confidence = 9 / 10, rel_article_id = Some ''1'',
          rel_source = Some ''feed-a'', rel_published_at = Some ''2025-01-01''\<rparr>,
         \<lparr>start_id = Some ''uuid-apple'', end_id = Some ''uuid-globex'',
          rel_type = ''ACQUIRED'', confidence = 9 / 10, rel_article_id = Some ''1'',
          rel_source = Some ''feed-a'', rel_published_at = Some ''2025-01-01''\<rparr>]\<rparr>"

definition example_env :: env where
  "example_env =
     \<lparr>base_data_dir = ''/data'', timestamp = ''20250101_120000'',
      nodes_to_csv_ok = True, rels_to_csv_ok = True, nodes_cp = CpDone, rels_cp = CpDone,
      nodes_session_ok = True, rels_session_ok = True\<rparr>"

definition example_world :: world where
  "example_world = \<lparr>files = Map.empty, import_files = Map.empty, db = empty_graph, events = []\<rparr>"

section \<open>Identifiers are a function of the normalized name\<close>

lemmas str_defs = strip_def lower_def upper_def ascii_text_def is_ascii_def ascii_strip_def
  ascii_lower_def ascii_upper_def ascii_isspace_def lower_char_def upper_char_def

lemma lower_Nil: "lower L [] = []"
  by (simp add: lower_def ascii_text_def ascii_lower_def)

lemma example_uuid5: "uuid5 example_lib key = ''uuid-'' @ key"
  by (simp add: example_lib_def)

lemma get_id_blank:
  "lower L (strip L name) = [] \<Longrightarrow> get_or_create_entity_id L sv name = (None, sv)"
  by (simp add: get_or_create_entity_id_def)

lemma get_id_fst:
  "cache_ok L sv \<Longrightarrow> fst (get_or_create_entity_id L sv name) = resolve L name"
  by (auto simp: get_or_create_entity_id_def cache_ok_def resolve_def Let_def)

lemma get_id_cache_ok:
  "cache_ok L sv \<Longrightarrow> cache_ok L (snd (get_or_create_entity_id L sv name))"
  by (auto simp: get_or_create_entity_id_def cache_ok_def Let_def)

lemma cache_ok_new: "cache_ok L new_service"
  by (simp add: cache_ok_def new_service_def)

lemma cache_ok_many: "cache_ok L sv \<Longrightarrow> cache_ok L (resolve_many L sv ns)"
  by (induction ns arbitrary: sv) (simp_all add: get_id_cache_ok)

text \<open>
  C2, as the claim states it, fails: the key of a name is its trimmed form under
  \<^verbatim>\<open>str.lower()\<close>, not under case folding. The name
  \<^const>\<open>strasse_sharp_s\<close> (written with a sharp s) and the name
  \<^verbatim>\<open>"STRASSE"\<close> have the same trimmed, case-folded form,
  \<^verbatim>\<open>"strasse"\<close>, and get different identifiers, because
  \<^verbatim>\<open>str.lower()\<close> keeps the sharp s.
\<close>

theorem casefold_equal_ids_differ:
  "casefold_sharp_s (strip example_lib strasse_sharp_s) = ''strasse''
   \<and> casefold_sharp_s (strip example_lib ''STRASSE'') = ''strasse''
   \<and> lower example_lib (strip example_lib strasse_sharp_s) = ''stra'' @ [CHR 0xC3, CHR 0x9F] @ ''e''
   \<and> lower example_lib (strip example_lib ''STRASSE'') = ''strasse''
   \<and> fst (get_or_create_entity_id example_lib new_service strasse_sharp_s)
       \<noteq> fst (get_or_create_entity_id example_lib new_service ''STRASSE'')"
proof -
  have k: "strip example_lib strasse_sharp_s = strasse_sharp_s"
    "strip example_lib ''STRASSE'' = ''STRASSE''"
    "lower example_lib strasse_sharp_s = ''stra'' @ [CHR 0xC3, CHR 0x9F] @ ''e''"
    "lower example_lib ''STRASSE'' = ''strasse''"
    by (simp_all add: str_defs example_lib_def strasse_sharp_s_def)
  have c: "casefold_sharp_s strasse_sharp_s = ''strasse''"
    "casefold_sharp_s ''STRASSE'' = ''strasse''"
    by (simp_all add: strasse_sharp_s_def lower_char_def)
  have i: "fst (get_or_create_entity_id example_lib new_service strasse_sharp_s)
       \<noteq> fst (get_or_create_entity_id example_lib new_service ''STRASSE'')"
    by (simp add: get_or_create_entity_id_def k new_service_def example_uuid5 Let_def)
  show ?thesis
    using c i by (simp add: k)
qed

text \<open>
  C2, amended. The identifier of a name does not depend on the calls made
  before: after any history \<open>ms\<close> of calls on a new service (a new instance, or
  a new process, starts from \<^const>\<open>new_service\<close>), and after any other history
  \<open>ms'\<close>, two names with the same trimmed, lower-cased form (the name after
  \<^verbatim>\<open>strip()\<close> and \<^verbatim>\<open>lower()\<close>) get the same identifier, namely
  \<^const>\<open>resolve\<close> of the name. In particular \<^verbatim>\<open>" Apple "\<close> and
  \<^verbatim>\<open>"apple"\<close> resolve to the same identifier.
\<close>

theorem entity_id_deterministic:
  "(lower L (strip L n) = lower L (strip L n') \<longrightarrow>
      fst (get_or_create_entity_id L (resolve_many L new_service ms) n)
    = fst (get_or_create_entity_id L (resolve_many L new_service ms') n'))
   \<and> fst (get_or_create_entity_id L (resolve_many L new_service ms) n) = resolve L n
   \<and> fst (get_or_create_entity_id L new_service '' Apple '')
     = fst (get_or_create_entity_id L new_service ''apple'')"
proof -
  have a: "cache_ok L (resolve_many L new_service xs)" for xs
    by (rule cache_ok_many [OF cache_ok_new])
  have b: "lower L (strip L '' Apple '') = lower L (strip L ''apple'')"
    by (simp add: str_defs)
  show ?thesis using b
    by (simp add: get_id_fst [OF a] get_id_fst [OF cache_ok_new] resolve_def)
qed

theorem entity_id_deterministic_witness:
  "lower example_lib (strip example_lib ''APPLE'')
     = lower example_lib (strip example_lib ''apple  '')
   \<and> fst (get_or_create_entity_id example_lib
            (resolve_many example_lib new_service [''Apple'', strasse_sharp_s]) ''APPLE'')
     = fst (get_or_create_entity_id example_lib
            (resolve_many example_lib new_service []) ''apple  '')"
proof -
  have h: "lower example_lib (strip example_lib ''APPLE'')
     = lower example_lib (strip example_lib ''apple  '')"
    by (simp add: str_defs)
  show ?thesis
    using h entity_id_deterministic [of example_lib "''APPLE''" "''apple  ''"
        "[''Apple'', strasse_sharp_s]" "[]"]
    by simp
qed

section \<open>Classification\<close>

lemma heuristic_valid: "heuristic_type L name \<in> VALID_LABELS"
  by (simp add: heuristic_type_def VALID_LABELS_def Let_def)

lemma clean_entities_names:
  "map ent_name (fst (clean_entities L client row sv es))
     = filter (\<lambda>s. s \<noteq> []) (map (strip L) es)"
proof (induction es arbitrary: sv)
  case Nil
  show ?case by simp
next
  case (Cons e es)
  show ?case
  proof (cases "strip L e = []")
    case True
    then show ?thesis using Cons.IH by simp
  next
    case False
    obtain i s1 where g: "get_or_create_entity_id L sv (strip L e) = (i, s1)"
      by (cases "get_or_create_entity_id L sv (strip L e)")
    obtain rest s3 where
      r: "clean_entities L client row (s1\<lparr>llm_calls := Suc (llm_calls s1)\<rparr>) es = (rest, s3)"
      by (cases "clean_entities L client row (s1\<lparr>llm_calls := Suc (llm_calls s1)\<rparr>) es")
    have "map ent_name rest = filter (\<lambda>s. s \<noteq> []) (map (strip L) es)"
      using Cons.IH [of "s1\<lparr>llm_calls := Suc (llm_calls s1)\<rparr>"] r by simp
    then show ?thesis using False g r by (simp add: Let_def)
  qed
qed

text \<open>
  C5, as the claim states it, fails: when the classifier answers with a label
  outside the allowed set, the result is \<^verbatim>\<open>"Entity"\<close>, not the heuristic's
  answer. For the name \<^verbatim>\<open>"Acme Inc"\<close> and the answer
  \<^verbatim>\<open>"Organization"\<close> the heuristic says \<^verbatim>\<open>"Company"\<close>.
\<close>

theorem invalid_label_not_heuristic:
  "''Organization'' \<notin> VALID_LABELS
   \<and> infer_type_llm example_lib (Content (Some ''Organization'')) ''Acme Inc'' = ''Entity''
   \<and> heuristic_type example_lib ''Acme Inc'' = ''Company''
   \<and> infer_type_llm example_lib (Content (Some ''Organization'')) ''Acme Inc''
       \<noteq> heuristic_type example_lib ''Acme Inc''"
  by (simp add: infer_type_llm_def VALID_LABELS_def heuristic_type_def str_defs)

text \<open>
  C5, amended. When the classifier call fails (it raises, or its content is
  \<^verbatim>\<open>None\<close>), the type is the heuristic's; when it returns a label outside
  the allowed set, the type is \<^verbatim>\<open>"Entity"\<close>; when it returns an allowed
  label (after \<^verbatim>\<open>strip()\<close>), the type is that label. The result is always
  one of the five labels, and whatever the classifier does, every mention that
  \<^verbatim>\<open>strip()\<close> does not empty yields its entity record: a failed
  classification drops nothing from the batch.
\<close>

theorem infer_type_llm_fallback:
  "(reply = Raises \<or> reply = Content None \<longrightarrow>
        infer_type_llm L reply name = heuristic_type L name)
   \<and> (reply = Content (Some c) \<and> strip L c \<notin> VALID_LABELS
        \<longrightarrow> infer_type_llm L reply name = ''Entity'')
   \<and> (reply = Content (Some c) \<and> strip L c \<in> VALID_LABELS
        \<longrightarrow> infer_type_llm L reply name = strip L c)
   \<and> infer_type_llm L reply name \<in> VALID_LABELS
   \<and> map ent_name (fst (clean_entities L client row sv es))
       = filter (\<lambda>s. s \<noteq> []) (map (strip L) es)"
proof -
  have "infer_type_llm L reply name \<in> VALID_LABELS"
    using heuristic_valid [of L name]
    by (auto simp: infer_type_llm_def Let_def VALID_LABELS_def
        split: llm_reply.splits option.splits)
  then show ?thesis
    by (auto simp: infer_type_llm_def Let_def clean_entities_names)
qed

theorem infer_type_llm_fallback_witness:
  "infer_type_llm example_lib Raises ''First Bank'' = heuristic_type example_lib ''First Bank''
   \<and> strip example_lib ''Organization'' \<notin> VALID_LABELS
   \<and> infer_type_llm example_lib (Content (Some ''Organization'')) ''First Bank'' = ''Entity''
   \<and> strip example_lib '' Person '' \<in> VALID_LABELS
   \<and> infer_type_llm example_lib (Content (Some '' Person '')) ''First Bank''
       = strip example_lib '' Person ''"
proof -
  have a: "strip example_lib ''Organization'' \<notin> VALID_LABELS"
    by (simp add: str_defs VALID_LABELS_def)
  have b: "strip example_lib '' Person '' \<in> VALID_LABELS"
    by (simp add: str_defs VALID_LABELS_def)
  show ?thesis
    using a b
      infer_type_llm_fallback [of Raises example_lib "''First Bank''" "''Organization''"]
      infer_type_llm_fallback [of "Content (Some ''Organization'')" example_lib
        "''First Bank''" "''Organization''"]
      infer_type_llm_fallback [of "Content (Some '' Person '')" example_lib
        "''First Bank''" "'' Person ''"]
    by simp
qed

section \<open>Normalizing triples\<close>

lemma truthy_iff: "truthy v = (v \<noteq> None \<and> v \<noteq> Some [])"
  by (cases v) (simp_all add: truthy_def)

lemma clean_relations_skip:
  "\<not> (truthy (subject r) \<and> truthy (object r) \<and> truthy (relation r)) \<Longrightarrow>
     clean_relations L row sv (r # rs) = clean_relations L row sv rs"
  by simp

lemma clean_relations_emit:
  "truthy (subject r) \<Longrightarrow> truthy (object r) \<Longrightarrow> truthy (relation r) \<Longrightarrow>
     clean_relations L row sv (r # rs) =
       (emitted L row sv r # fst (clean_relations L row (after_triple L sv r) rs),
        snd (clean_relations L row (after_triple L sv r) rs))"
  by (simp add: emitted_def after_triple_def Let_def split: prod.splits)

text \<open>
  C4. At each iteration of the loop over the triples: a triple whose subject,
  relation or object is missing or the empty string is skipped, nothing is
  emitted for it and the loop goes on with the rest; any other triple puts one
  record in front of what the rest yields, whose type is the relation phrase
  upper-cased (by \<^verbatim>\<open>upper()\<close>) with spaces replaced by underscores,
  whose confidence is 0.9, and
  whose \<open>start_id\<close> and \<open>end_id\<close> are what \<^const>\<open>get_or_create_entity_id\<close>
  returns for the subject and then for the object.
\<close>

theorem clean_relations_normalizes:
  "(subject r \<in> {None, Some []} \<or> relation r \<in> {None, Some []} \<or> object r \<in> {None, Some []}
      \<longrightarrow> clean_relations L row sv (r # rs) = clean_relations L row sv rs
        \<and> fst (clean_relations L row sv [r]) = [])
   \<and> (subject r = Some s \<and> s \<noteq> [] \<and> relation r = Some p \<and> p \<noteq> []
        \<and> object r = Some ob \<and> ob \<noteq> []
      \<longrightarrow> (\<exists>rec sv'. fst (clean_relations L row sv (r # rs))
                     = rec # fst (clean_relations L row sv' rs)
            \<and> rel_type rec = replace_char CHR '' '' CHR ''_'' (upper L p)
            \<and> confidence rec = 9 / 10
            \<and> start_id rec = fst (get_or_create_entity_id L sv s)
            \<and> end_id rec = fst (get_or_create_entity_id L
                                  (snd (get_or_create_entity_id L sv s)) ob)))"
proof (intro conjI impI)
  assume "subject r \<in> {None, Some []} \<or> relation r \<in> {None, Some []}
            \<or> object r \<in> {None, Some []}"
  then have n: "\<not> (truthy (subject r) \<and> truthy (object r) \<and> truthy (relation r))"
    by (auto simp: truthy_iff)
  show "clean_relations L row sv (r # rs) = clean_relations L row sv rs"
    by (rule clean_relations_skip [OF n])
  show "fst (clean_relations L row sv [r]) = []"
    by (simp only: clean_relations_skip [OF n]) simp
next
  assume a: "subject r = Some s \<and> s \<noteq> [] \<and> relation r = Some p \<and> p \<noteq> []
               \<and> object r = Some ob \<and> ob \<noteq> []"
  then have t: "truthy (subject r)" "truthy (object r)" "truthy (relation r)"
    by (simp_all add: truthy_iff)
  show "\<exists>rec sv'. fst (clean_relations L row sv (r # rs))
                     = rec # fst (clean_relations L row sv' rs)
            \<and> rel_type rec = replace_char CHR '' '' CHR ''_'' (upper L p)
            \<and> confidence rec = 9 / 10
            \<and> start_id rec = fst (get_or_create_entity_id L sv s)
            \<and> end_id rec = fst (get_or_create_entity_id L
                                  (snd (get_or_create_entity_id L sv s)) ob)"
    apply (rule exI [of _ "emitted L row sv r"])
    apply (rule exI [of _ "after_triple L sv r"])
    using a by (simp add: clean_relations_emit [OF t] emitted_def del: clean_relations.simps)
qed

theorem clean_relations_normalizes_witness:
  "fst (clean_relations example_lib
          \<lparr>entities = [], relations = [], row_source = None, row_article_id = None,
           row_published_at = None\<rparr> new_service
          [\<lparr>subject = Some ''Apple'', relation = Some [], object = Some ''Tim Cook''\<rparr>]) = []
   \<and> (\<exists>rec sv'. fst (clean_relations example_lib
          \<lparr>entities = [], relations = [], row_source = None, row_article_id = None,
           row_published_at = None\<rparr> new_service
          [\<lparr>subject = Some ''Apple'', relation = Some ''has ceo'', object = Some ''Tim Cook''\<rparr>])
        = [rec]
      \<and> rel_type rec = ''HAS_CEO'' \<and> confidence rec = 9 / 10
      \<and> start_id rec = Some ''uuid-apple'' \<and> end_id rec = Some ''uuid-tim cook'')"
proof -
  let ?u = example_lib
  let ?row = "\<lparr>entities = [], relations = [], row_source = None, row_article_id = None,
           row_published_at = None\<rparr>"
  have k: "lower ?u (strip ?u ''Apple'') = ''apple''"
    "lower ?u (strip ?u ''Tim Cook'') = ''tim cook''"
    "replace_char CHR '' '' CHR ''_'' (upper ?u ''has ceo'') = ''HAS_CEO''"
    by (simp_all add: str_defs replace_char_def)
  have i: "fst (get_or_create_entity_id ?u new_service ''Apple'') = Some ''uuid-apple''"
    "fst (get_or_create_entity_id ?u (snd (get_or_create_entity_id ?u new_service ''Apple''))
            ''Tim Cook'') = Some ''uuid-tim cook''"
    by (simp_all add: get_or_create_entity_id_def k new_service_def Let_def example_uuid5)
  have a: "fst (clean_relations ?u ?row new_service
          [\<lparr>subject = Some ''Apple'', relation = Some [], object = Some ''Tim Cook''\<rparr>]) = []"
    using clean_relations_normalizes
      [of "\<lparr>subject = Some ''Apple'', relation = Some [], object = Some ''Tim Cook''\<rparr>"
        ?u ?row new_service "[]" "''Apple''" "[]" "''Tim Cook''"]
    by (simp del: clean_relations.simps(2))
  have b: "\<exists>rec sv'. fst (clean_relations ?u ?row new_service
          [\<lparr>subject = Some ''Apple'', relation = Some ''has ceo'', object = Some ''Tim Cook''\<rparr>])
        = rec # fst (clean_relations ?u ?row sv' [])
      \<and> rel_type rec = ''HAS_CEO'' \<and> confidence rec = 9 / 10
      \<and> start_id rec = Some ''uuid-apple'' \<and> end_id rec = Some ''uuid-tim cook''"
    using clean_relations_normalizes
      [of "\<lparr>subject = Some ''Apple'', relation = Some ''has ceo'', object = Some ''Tim Cook''\<rparr>"
        ?u ?row new_service "[]" "''Apple''" "''has ceo''" "''Tim Cook''"]
    by (simp add: k i del: clean_relations.simps(2))
  show ?thesis
    using a b by (simp del: clean_relations.simps(2))
qed

section \<open>Blank names\<close>

lemma clean_relations_mem:
  "r \<in> set rs \<Longrightarrow> truthy (subject r) \<Longrightarrow> truthy (object r) \<Longrightarrow> truthy (relation r) \<Longrightarrow>
     \<exists>sv1. emitted L row sv1 r \<in> set (fst (clean_relations L row sv rs))"
proof (induction rs arbitrary: sv)
  case Nil
  then show ?case by simp
next
  case (Cons a rs)
  show ?case
  proof (cases "truthy (subject a) \<and> truthy (object a) \<and> truthy (relation a)")
    case False
    then have "a \<noteq> r" using Cons.prems by auto
    then have "r \<in> set rs" using Cons.prems by simp
    from Cons.IH [OF this Cons.prems(2-4), of sv] show ?thesis
      using False by (simp only: clean_relations_skip [OF False])
  next
    case True
    then have t: "truthy (subject a)" "truthy (object a)" "truthy (relation a)" by simp_all
    show ?thesis
    proof (cases "a = r")
      case True
      show ?thesis
        by (rule exI [of _ sv])
          (simp add: clean_relations_emit [OF t, unfolded True] True del: clean_relations.simps)
    next
      case False
      then have "r \<in> set rs" using Cons.prems by simp
      from Cons.IH [OF this Cons.prems(2-4), of "after_triple L sv a"]
      show ?thesis
        by (auto simp add: clean_relations_emit [OF t] simp del: clean_relations.simps)
    qed
  qed
qed

lemma clean_row_mem:
  assumes "r \<in> set (relations row)" "truthy (subject r)" "truthy (object r)" "truthy (relation r)"
  shows "\<exists>sv1. emitted L row sv1 r
            \<in> set (cl_relations (fst (clean_extraction_row L client sv row)))"
proof -
  obtain es s1 where e: "clean_entities L client row sv (entities row) = (es, s1)"
    by (cases "clean_entities L client row sv (entities row)")
  from clean_relations_mem [OF assms, of L row s1]
  show ?thesis
    by (simp add: clean_extraction_row_def e split: prod.splits) (metis fst_conv)
qed

lemma collect_rows_mem:
  "row \<in> set df \<Longrightarrow>
     \<exists>sv1. set (cl_relations (fst (clean_extraction_row L client sv1 row)))
              \<subseteq> set (snd (fst (collect_rows L client sv df)))"
proof (induction df arbitrary: sv)
  case Nil
  then show ?case by simp
next
  case (Cons a df)
  obtain c s1 where c: "clean_extraction_row L client sv a = (c, s1)"
    by (cases "clean_extraction_row L client sv a")
  obtain E R s2 where r: "collect_rows L client s1 df = ((E, R), s2)"
    by (cases "collect_rows L client s1 df") auto
  show ?case
  proof (cases "row = a")
    case True
    show ?thesis
      by (rule exI [of _ sv]) (simp add: True c r)
  next
    case False
    then have "row \<in> set df" using Cons.prems by simp
    from Cons.IH [OF this, of s1] obtain sv1 where
      "set (cl_relations (fst (clean_extraction_row L client sv1 row))) \<subseteq> set R"
      using r by auto
    then show ?thesis
      by (intro exI [of _ sv1]) (auto simp: c r)
  qed
qed

lemma emitted_blank:
  "(lower L (strip L (the (subject r))) = [] \<longrightarrow> start_id (emitted L row sv r) = None)
   \<and> (lower L (strip L (the (object r))) = [] \<longrightarrow> end_id (emitted L row sv r) = None)
   \<and> rel_type (emitted L row sv r)
       = replace_char CHR '' '' CHR ''_'' (upper L (the (relation r)))"
  by (simp add: emitted_def get_or_create_entity_id_def)

section \<open>Deduplication\<close>

lemma drop_dups_keys: "set (map key (drop_dups key seen xs)) = set (map key xs) - set seen"
  by (induction xs arbitrary: seen) auto

lemma drop_dups_distinct: "distinct (map key (drop_dups key seen xs))"
  by (induction xs arbitrary: seen) (auto simp: drop_dups_keys [simplified])

lemma drop_dups_first:
  "x \<in> set (drop_dups key seen xs) \<Longrightarrow> find (\<lambda>y. key y = key x) xs = Some x"
proof (induction xs arbitrary: seen)
  case Nil
  then show ?case by simp
next
  case (Cons a xs)
  show ?case
  proof (cases "key a = key x")
    case True
    have "key x \<notin> set (map key (drop_dups key (key a # seen) xs))"
      using True by (simp only: drop_dups_keys) simp
    then have "x \<notin> set (drop_dups key (key a # seen) xs)" by force
    moreover have "key x \<notin> set (map key (drop_dups key seen xs)) \<or> key a \<notin> set seen"
      using True by (simp only: drop_dups_keys) simp
    then have "x \<notin> set (drop_dups key seen xs) \<or> key a \<notin> set seen" by force
    ultimately show ?thesis using Cons.prems True by (auto split: if_splits)
  next
    case False
    then show ?thesis using Cons by (auto split: if_splits)
  qed
qed

lemma drop_dups_length: "length (drop_dups key seen xs) = card (key ` set xs - set seen)"
proof -
  have "length (drop_dups key seen xs) = length (map key (drop_dups key seen xs))" by simp
  also have "\<dots> = card (set (map key (drop_dups key seen xs)))"
    using drop_dups_distinct [of key seen xs] by (simp only: distinct_card)
  also have "\<dots> = card (key ` set xs - set seen)"
    by (simp only: drop_dups_keys) simp
  finally show ?thesis .
qed

lemma drop_duplicates_props:
  "distinct (map key (drop_duplicates key xs))"
  "x \<in> set (drop_duplicates key xs) \<Longrightarrow> find (\<lambda>y. key y = key x) xs = Some x"
  "length (drop_duplicates key xs) = card (key ` set xs)"
  "key ` set (drop_duplicates key xs) = key ` set xs"
  using drop_dups_distinct [of key "[]" xs] drop_dups_first [of x key "[]" xs]
    drop_dups_length [of key "[]" xs] drop_dups_keys [of key "[]" xs]
  by (simp_all add: drop_duplicates_def)

lemma run_resolution_fst:
  "fst (run_resolution L client sv df) =
     \<lparr>batch_nodes = drop_duplicates ent_id (fst (fst (collect_rows L client sv df))),
      batch_relations = drop_duplicates rel_key (snd (fst (collect_rows L client sv df)))\<rparr>"
  by (simp add: run_resolution_def split: prod.splits)

text \<open>
  C3. Let \<open>all_entities\<close> and \<open>all_relations\<close> be the records the loop of
  \<^verbatim>\<open>run_resolution\<close> has collected, in order. The returned nodes have
  pairwise different ids, and each of them is the first collected record with its
  id; every collected id is kept, so there are as many nodes as distinct ids.
  The returned relations have pairwise different keys
  \<open>(start_id, end_id, type)\<close>, each of them is the first collected record with
  its key, and there are exactly as many relations as distinct keys.
\<close>

theorem run_resolution_dedup:
  "(let all_entities = fst (fst (collect_rows L client sv df));
        all_relations = snd (fst (collect_rows L client sv df));
        b = fst (run_resolution L client sv df) in
     distinct (map ent_id (batch_nodes b))
   \<and> (\<forall>n \<in> set (batch_nodes b). find (\<lambda>e. ent_id e = ent_id n) all_entities = Some n)
   \<and> length (batch_nodes b) = card (ent_id ` set all_entities)
   \<and> distinct (map rel_key (batch_relations b))
   \<and> (\<forall>r \<in> set (batch_relations b).
         find (\<lambda>x. rel_key x = rel_key r) all_relations = Some r)
   \<and> length (batch_relations b) = card (rel_key ` set all_relations))"
  by (simp add: run_resolution_fst drop_duplicates_props Let_def)

theorem run_resolution_dedup_witness:
  "(let all_entities = fst (fst (collect_rows example_lib failing_client new_service example_df));
        all_relations = snd (fst (collect_rows example_lib failing_client new_service example_df));
        b = fst (run_resolution example_lib failing_client new_service example_df);
        n = \<lparr>ent_id = Some ''uuid-apple'', ent_name = ''Apple'', ent_label = ''Entity'',
             ent_source = Some ''feed-a'', ent_article_id = Some ''1'', ent_published_at = None\<rparr>;
        r = \<lparr>start_id = Some ''uuid-apple'', end_id = Some ''uuid-tim cook'',
             rel_type = ''HAS_CEO'', confidence = 9 / 10, rel_article_id = Some ''1'',
             rel_source = Some ''feed-a'', rel_published_at = None\<rparr> in
     length all_entities = 3 \<and> n \<in> set (batch_nodes b)
   \<and> find (\<lambda>e. ent_id e = ent_id n) all_entities = Some n
   \<and> length all_relations = 4 \<and> r \<in> set (batch_relations b)
   \<and> find (\<lambda>x. rel_key x = rel_key r) all_relations = Some r
   \<and> length (batch_relations b) = 2)"
proof -
  let ?b = "fst (run_resolution example_lib failing_client new_service example_df)"
  have n: "batch_nodes ?b =
      [\<lparr>ent_id = Some ''uuid-apple'', ent_name = ''Apple'', ent_label = ''Entity'',
        ent_source = Some ''feed-a'', ent_article_id = Some ''1'', ent_published_at = None\<rparr>]"
    by code_simp
  have r: "batch_relations ?b =
      [\<lparr>start_id = Some ''uuid-apple'', end_id = Some ''uuid-tim cook'',
        rel_type = ''HAS_CEO'', confidence = 9 / 10, rel_article_id = Some ''1'',
        rel_source = Some ''feed-a'', rel_published_at = None\<rparr>,
       \<lparr>start_id = None, end_id = Some ''uuid-tim cook'',
        rel_type = ''HAS_CEO'', confidence = 9 / 10, rel_article_id = Some ''2'',
        rel_source = Some ''feed-b'', rel_published_at = None\<rparr>]"
    by code_simp
  have l: "length (fst (fst (collect_rows example_lib failing_client new_service example_df))) = 3"
    "length (snd (fst (collect_rows example_lib failing_client new_service example_df))) = 4"
    by code_simp+
  show ?thesis
    using run_resolution_dedup [of example_lib failing_client new_service example_df]
    by (simp add: Let_def n r l)
qed

section \<open>Blank names reach the relation set\<close>

text \<open>
  C10, as the claim states it, fails: a triple whose subject is only whitespace
  is still skipped when its relation or its object is empty or missing. In the
  row below the first triple has the subject of two spaces and an empty relation,
  the second the same subject and no object; nothing is emitted.
\<close>

theorem blank_subject_triple_skipped:
  "cl_relations (fst (clean_extraction_row example_lib failing_client new_service
       \<lparr>entities = [],
        relations =
          [\<lparr>subject = Some ''  '', relation = Some [], object = Some ''Tim Cook''\<rparr>,
           \<lparr>subject = Some ''  '', relation = Some ''HAS CEO'', object = None\<rparr>],
        row_source = None, row_article_id = None, row_published_at = None\<rparr>)) = []"
  by (simp add: clean_extraction_row_def truthy_def)

text \<open>
  C10, amended. Let a triple of a row have a relation and an object that are not
  empty and a subject \<open>s\<close> that is not empty but is only whitespace (which is
  when \<^verbatim>\<open>strip()\<close> leaves nothing of it). The triple is not skipped:
  \<^const>\<open>get_or_create_entity_id\<close> returns \<open>None\<close> for \<open>s\<close>, the cleaned row
  holds a relation record whose \<open>start_id\<close> is \<open>None\<close>, and so does the
  relation set \<^verbatim>\<open>run_resolution\<close> returns. The same holds for an object
  that is only whitespace, with a relation and a subject that are not empty, and
  \<open>end_id\<close>.
\<close>

theorem blank_name_relation_emitted:
  assumes "row \<in> set df" and "r \<in> set (relations row)"
    and "truthy (subject r)" and "truthy (relation r)" and "truthy (object r)"
    and "s \<noteq> []" and "strip L s = []"
  shows "fst (get_or_create_entity_id L sv s) = None
   \<and> (subject r = Some s \<longrightarrow>
        (\<exists>rec \<in> set (cl_relations (fst (clean_extraction_row L client sv row))).
            start_id rec = None
          \<and> rel_type rec = replace_char CHR '' '' CHR ''_'' (upper L (the (relation r))))
      \<and> (\<exists>rec \<in> set (batch_relations (fst (run_resolution L client sv0 df))).
            start_id rec = None
          \<and> rel_type rec = replace_char CHR '' '' CHR ''_'' (upper L (the (relation r)))))
   \<and> (object r = Some s \<longrightarrow>
        (\<exists>rec \<in> set (cl_relations (fst (clean_extraction_row L client sv row))).
            end_id rec = None
          \<and> rel_type rec = replace_char CHR '' '' CHR ''_'' (upper L (the (relation r))))
      \<and> (\<exists>rec \<in> set (batch_relations (fst (run_resolution L client sv0 df))).
            end_id rec = None
          \<and> rel_type rec = replace_char CHR '' '' CHR ''_'' (upper L (the (relation r)))))"
proof -
  let ?T = "replace_char CHR '' '' CHR ''_'' (upper L (the (relation r)))"
  let ?R = "snd (fst (collect_rows L client sv0 df))"
  have blank: "lower L (strip L s) = []"
    by (simp add: assms(7) lower_Nil)
  have none: "fst (get_or_create_entity_id L sv s) = None"
    by (simp add: get_id_blank [OF blank])
  obtain sa where sa: "emitted L row sa r
      \<in> set (cl_relations (fst (clean_extraction_row L client sv row)))"
    using clean_row_mem [OF assms(2,3,5,4)] by blast
  obtain sv1 where sub: "set (cl_relations (fst (clean_extraction_row L client sv1 row)))
      \<subseteq> set ?R"
    using collect_rows_mem [OF assms(1)] by blast
  obtain sb where "emitted L row sb r
      \<in> set (cl_relations (fst (clean_extraction_row L client sv1 row)))"
    using clean_row_mem [OF assms(2,3,5,4)] by blast
  then have "rel_key (emitted L row sb r) \<in> rel_key ` set ?R"
    using sub by blast
  then have "rel_key (emitted L row sb r)
      \<in> rel_key ` set (batch_relations (fst (run_resolution L client sv0 df)))"
    by (simp add: run_resolution_fst drop_duplicates_props(4))
  then obtain y where y: "y \<in> set (batch_relations (fst (run_resolution L client sv0 df)))"
    "rel_key y = rel_key (emitted L row sb r)"
    by auto
  have ty: "rel_type y = ?T" "rel_type (emitted L row sa r) = ?T"
    using y(2) emitted_blank [of L r row sb] emitted_blank [of L r row sa]
    by (simp_all add: rel_key_def)
  have st: "subject r = Some s \<Longrightarrow> start_id y = None \<and> start_id (emitted L row sa r) = None"
    using y(2) blank emitted_blank [of L r row sb] emitted_blank [of L r row sa]
    by (simp add: rel_key_def)
  have en: "object r = Some s \<Longrightarrow> end_id y = None \<and> end_id (emitted L row sa r) = None"
    using y(2) blank emitted_blank [of L r row sb] emitted_blank [of L r row sa]
    by (simp add: rel_key_def)
  show ?thesis
    using none sa y(1) ty st en by blast
qed

theorem blank_name_relation_emitted_witness:
  "''  '' \<noteq> [] \<and> strip example_lib ''  '' = []
   \<and> fst (get_or_create_entity_id example_lib new_service ''  '') = None
   \<and> (\<exists>rec \<in> set (cl_relations (fst (clean_extraction_row example_lib failing_client
                   new_service (example_df ! 1)))).
          start_id rec = None \<and> rel_type rec = ''HAS_CEO'')
   \<and> (\<exists>rec \<in> set (batch_relations (fst (run_resolution example_lib failing_client
                   new_service example_df))).
          start_id rec = None \<and> rel_type rec = ''HAS_CEO'')
   \<and> (\<exists>rec \<in> set (batch_relations (fst (run_resolution example_lib failing_client
                   new_service
                   [\<lparr>entities = [], relations = [blank_object_triple], row_source = None,
                     row_article_id = None, row_published_at = None\<rparr>]))).
          end_id rec = None \<and> rel_type rec = ''HAS_CEO'')"
proof -
  let ?row = "\<lparr>entities = [], relations = [blank_object_triple], row_source = None,
                row_article_id = None, row_published_at = None\<rparr>"
  have h: "example_df ! 1 \<in> set example_df" "blank_triple \<in> set (relations (example_df ! 1))"
    "truthy (subject blank_triple)" "truthy (relation blank_triple)"
    "truthy (object blank_triple)" "''  '' \<noteq> []" "strip example_lib ''  '' = []"
    by (simp_all add: example_df_def blank_triple_def truthy_def str_defs)
  have t: "subject blank_triple = Some ''  ''"
    "replace_char CHR '' '' CHR ''_'' (upper example_lib (the (relation blank_triple)))
       = ''HAS_CEO''"
    by (simp_all add: blank_triple_def replace_char_def str_defs)
  have h2: "?row \<in> set [?row]" "blank_object_triple \<in> set (relations ?row)"
    "truthy (subject blank_object_triple)" "truthy (relation blank_object_triple)"
    "truthy (object blank_object_triple)"
    by (simp_all add: blank_object_triple_def truthy_def)
  have t2: "object blank_object_triple = Some ''  ''"
    "replace_char CHR '' '' CHR ''_'' (upper example_lib (the (relation blank_object_triple)))
       = ''HAS_CEO''"
    by (simp_all add: blank_object_triple_def replace_char_def str_defs)
  have a: "fst (get_or_create_entity_id example_lib new_service ''  '') = None
   \<and> (\<exists>rec \<in> set (cl_relations (fst (clean_extraction_row example_lib failing_client
                   new_service (example_df ! 1)))).
          start_id rec = None \<and> rel_type rec = ''HAS_CEO'')
   \<and> (\<exists>rec \<in> set (batch_relations (fst (run_resolution example_lib failing_client
                   new_service example_df))).
          start_id rec = None \<and> rel_type rec = ''HAS_CEO'')"
    using blank_name_relation_emitted [OF h, of new_service failing_client new_service]
    by (simp only: t)
  have b: "\<exists>rec \<in> set (batch_relations (fst (run_resolution example_lib failing_client
                   new_service [?row]))).
          end_id rec = None \<and> rel_type rec = ''HAS_CEO''"
    using blank_name_relation_emitted [OF h2 h(6,7), of new_service failing_client
        new_service]
    by (simp only: t2)
  show ?thesis
    using a b h(6,7) by blast
qed

section \<open>The example of the specification\<close>

text \<open>
  C6, as the claim states it, fails twice. The heuristic looks for the cues
  \<^verbatim>\<open>inc, corp, company, bank, fund\<close> and \<^verbatim>\<open>mr, dr, ceo, president\<close>
  in the lower-cased name, and neither \<^verbatim>\<open>"apple"\<close> nor
  \<^verbatim>\<open>"tim cook"\<close> contains one: both names are typed \<^verbatim>\<open>"Entity"\<close>.
  And entity records are built from the entity mentions of a row, not from its
  triples: for the triple alone the result has one relation and no node.
\<close>

theorem spec_example_fails:
  "heuristic_type example_lib ''Apple'' = ''Entity''
   \<and> heuristic_type example_lib ''Apple'' \<noteq> ''Company''
   \<and> heuristic_type example_lib ''Tim Cook'' = ''Entity''
   \<and> heuristic_type example_lib ''Tim Cook'' \<noteq> ''Person''
   \<and> batch_nodes (fst (run_resolution example_lib failing_client new_service
         [\<lparr>entities = [], relations = [example_triple], row_source = None,
           row_article_id = None, row_published_at = None\<rparr>])) = []
   \<and> length (batch_relations (fst (run_resolution example_lib failing_client new_service
         [\<lparr>entities = [], relations = [example_triple], row_source = None,
           row_article_id = None, row_published_at = None\<rparr>]))) = 1"
proof -
  have "heuristic_type example_lib ''Apple'' = ''Entity''"
    "heuristic_type example_lib ''Tim Cook'' = ''Entity''"
    by (simp_all add: heuristic_type_def str_defs)
  moreover have "batch_nodes (fst (run_resolution example_lib failing_client new_service
         [\<lparr>entities = [], relations = [example_triple], row_source = None,
           row_article_id = None, row_published_at = None\<rparr>])) = []"
    "length (batch_relations (fst (run_resolution example_lib failing_client new_service
         [\<lparr>entities = [], relations = [example_triple], row_source = None,
           row_article_id = None, row_published_at = None\<rparr>]))) = 1"
    by code_simp+
  ultimately show ?thesis by simp
qed

text \<open>
  C6, amended. For the triple \<^verbatim>\<open>("Apple", "HAS CEO", "Tim Cook")\<close> alone,
  resolved by a new service, the result has exactly one relation, of type
  \<^verbatim>\<open>HAS_CEO\<close> and confidence 0.9, from the identifier of
  \<^verbatim>\<open>apple\<close> to that of \<^verbatim>\<open>tim cook\<close>, and no node. The heuristic
  types both names \<^verbatim>\<open>Entity\<close>. When the row also has the entity
  mentions \<^verbatim>\<open>Apple\<close> and \<^verbatim>\<open>Tim Cook\<close> and the classifier calls fail
  (so that the heuristic is used), the result has exactly two nodes, with these
  two identifiers, both of type \<^verbatim>\<open>Entity\<close>, and the same relation.
\<close>

theorem spec_example_resolution:
  "fst (run_resolution L client new_service
           [\<lparr>entities = [], relations = [example_triple],
             row_source = so, row_article_id = ar, row_published_at = pu\<rparr>])
    = \<lparr>batch_nodes = [],
       batch_relations =
         [\<lparr>start_id = Some (uuid5 L ''apple''), end_id = Some (uuid5 L ''tim cook''),
           rel_type = ''HAS_CEO'', confidence = 9 / 10, rel_article_id = ar,
           rel_source = so, rel_published_at = pu\<rparr>]\<rparr>
   \<and> heuristic_type L ''Apple'' = ''Entity'' \<and> heuristic_type L ''Tim Cook'' = ''Entity''
   \<and> (uuid5 L ''apple'' \<noteq> uuid5 L ''tim cook'' \<longrightarrow>
        fst (run_resolution L failing_client new_service
           [\<lparr>entities = [''Apple'', ''Tim Cook''], relations = [example_triple],
             row_source = so, row_article_id = ar, row_published_at = pu\<rparr>])
        = \<lparr>batch_nodes =
             [\<lparr>ent_id = Some (uuid5 L ''apple''), ent_name = ''Apple'', ent_label = ''Entity'',
               ent_source = so, ent_article_id = ar, ent_published_at = pu\<rparr>,
              \<lparr>ent_id = Some (uuid5 L ''tim cook''), ent_name = ''Tim Cook'',
               ent_label = ''Entity'',
               ent_source = so, ent_article_id = ar, ent_published_at = pu\<rparr>],
           batch_relations =
             [\<lparr>start_id = Some (uuid5 L ''apple''), end_id = Some (uuid5 L ''tim cook''),
               rel_type = ''HAS_CEO'', confidence = 9 / 10, rel_article_id = ar,
               rel_source = so, rel_published_at = pu\<rparr>]\<rparr>)"
proof -
  have k: "strip L ''Apple'' = ''Apple''" "strip L ''Tim Cook'' = ''Tim Cook''"
    "lower L ''Apple'' = ''apple''" "lower L ''Tim Cook'' = ''tim cook''"
    "replace_char CHR '' '' CHR ''_'' (upper L ''HAS CEO'') = ''HAS_CEO''"
    by (simp_all add: str_defs replace_char_def)
  have h: "heuristic_type L ''Apple'' = ''Entity''" "heuristic_type L ''Tim Cook'' = ''Entity''"
    by (simp_all add: heuristic_type_def str_defs)
  have a: "fst (run_resolution L client new_service
           [\<lparr>entities = [], relations = [example_triple],
             row_source = so, row_article_id = ar, row_published_at = pu\<rparr>])
    = \<lparr>batch_nodes = [],
       batch_relations =
         [\<lparr>start_id = Some (uuid5 L ''apple''), end_id = Some (uuid5 L ''tim cook''),
           rel_type = ''HAS_CEO'', confidence = 9 / 10, rel_article_id = ar,
           rel_source = so, rel_published_at = pu\<rparr>]\<rparr>"
    by (simp add: run_resolution_def clean_extraction_row_def get_or_create_entity_id_def
        new_service_def example_triple_def truthy_def drop_duplicates_def rel_key_def k Let_def)
  have b: "uuid5 L ''apple'' \<noteq> uuid5 L ''tim cook'' \<Longrightarrow>
        fst (run_resolution L failing_client new_service
           [\<lparr>entities = [''Apple'', ''Tim Cook''], relations = [example_triple],
             row_source = so, row_article_id = ar, row_published_at = pu\<rparr>])
        = \<lparr>batch_nodes =
             [\<lparr>ent_id = Some (uuid5 L ''apple''), ent_name = ''Apple'', ent_label = ''Entity'',
               ent_source = so, ent_article_id = ar, ent_published_at = pu\<rparr>,
              \<lparr>ent_id = Some (uuid5 L ''tim cook''), ent_name = ''Tim Cook'',
               ent_label = ''Entity'',
               ent_source = so, ent_article_id = ar, ent_published_at = pu\<rparr>],
           batch_relations =
             [\<lparr>start_id = Some (uuid5 L ''apple''), end_id = Some (uuid5 L ''tim cook''),
               rel_type = ''HAS_CEO'', confidence = 9 / 10, rel_article_id = ar,
               rel_source = so, rel_published_at = pu\<rparr>]\<rparr>"
    by (simp add: run_resolution_def clean_extraction_row_def get_or_create_entity_id_def
        new_service_def failing_client_def infer_type_llm_def example_triple_def truthy_def
        drop_duplicates_def rel_key_def k h Let_def)
  show ?thesis
    using a b h by blast
qed

theorem spec_example_resolution_witness:
  "uuid5 example_lib ''apple'' \<noteq> uuid5 example_lib ''tim cook''
   \<and> fst (run_resolution example_lib failing_client new_service
           [\<lparr>entities = [''Apple'', ''Tim Cook''], relations = [example_triple],
             row_source = Some ''feed-a'', row_article_id = Some ''1'',
             row_published_at = None\<rparr>])
    = \<lparr>batch_nodes =
         [\<lparr>ent_id = Some ''uuid-apple'', ent_name = ''Apple'', ent_label = ''Entity'',
           ent_source = Some ''feed-a'', ent_article_id = Some ''1'', ent_published_at = None\<rparr>,
          \<lparr>ent_id = Some ''uuid-tim cook'', ent_name = ''Tim Cook'', ent_label = ''Entity'',
           ent_source = Some ''feed-a'', ent_article_id = Some ''1'', ent_published_at = None\<rparr>],
       batch_relations =
         [\<lparr>start_id = Some ''uuid-apple'', end_id = Some ''uuid-tim cook'',
           rel_type = ''HAS_CEO'', confidence = 9 / 10, rel_article_id = Some ''1'',
           rel_source = Some ''feed-a'', rel_published_at = None\<rparr>]\<rparr>"
proof -
  have e: "uuid5 example_lib ''apple'' = ''uuid-apple''"
    "uuid5 example_lib ''tim cook'' = ''uuid-tim cook''"
    by (simp_all add: example_uuid5)
  have h: "uuid5 example_lib ''apple'' \<noteq> uuid5 example_lib ''tim cook''"
    by (simp add: e)
  show ?thesis
    using h spec_example_resolution [of example_lib failing_client "Some ''feed-a''"
        "Some ''1''" None]
    by (simp add: e)
qed

section \<open>Starting the pipeline while it runs\<close>

text \<open>
  C9. A start request handled while \<open>running\<close> is true is answered with the
  error \<^verbatim>\<open>"Pipeline is already running"\<close> (status 400) and changes nothing:
  the status record of the run in flight, with its stage, progress, message and
  statistics, is the same afterwards, and no thread is started, so the request
  is not kept for later and does not replace the run.
\<close>

theorem start_pipeline_rejects:
  assumes "running (pipeline_status a)"
  shows "start_pipeline json a = ((ErrorBody ''Pipeline is already running'', 400), a)"
  using assms by (simp add: start_pipeline_def)

theorem start_pipeline_rejects_witness:
  "running (pipeline_status example_app)
   \<and> start_pipeline (Some \<lparr>sample_size = Some 10, run_ingestion = Some False\<rparr>) example_app
     = ((ErrorBody ''Pipeline is already running'', 400), example_app)"
proof -
  have h: "running (pipeline_status example_app)"
    by (simp add: example_app_def)
  show ?thesis
    using h start_pipeline_rejects [OF h] by simp
qed

section \<open>The order of loading\<close>

lemma csv_paths_differ: "nodes_csv e \<noteq> rels_csv e"
  by (simp add: nodes_csv_def rels_csv_def)

lemma run_loading_staged:
  assumes "staged e"
  shows "fst (run_loading e b w) =
           Returned (case node_phase e b (db w) of None \<Rightarrow> False
                     | Some g1 \<Rightarrow> rel_phase e b g1 \<noteq> None)"
    and "db (snd (run_loading e b w)) =
           (case node_phase e b (db w) of None \<Rightarrow> db w
            | Some g1 \<Rightarrow> (case rel_phase e b g1 of None \<Rightarrow> g1 | Some g2 \<Rightarrow> g2))"
    and "events (snd (run_loading e b w)) =
           events w @ take (if node_phase e b (db w) = None then 5 else 6) (load_events e)"
    and "import_files (snd (run_loading e b w)) ''nodes_latest.csv''
           = Some (NodesFile (map node_to_row (batch_nodes b)))"
    and "import_files (snd (run_loading e b w)) ''relations_latest.csv''
           = Some (RelationsFile (map rel_to_row (batch_relations b)))"
  using assms csv_paths_differ [of e]
  by (auto simp: staged_def run_loading_def to_csv_def copy_to_docker_def load_nodes_csv_def
      load_relationships_csv_def node_phase_def rel_phase_def as_node_rows_def as_rel_rows_def
      load_events_def Let_def split: option.splits)

lemma run_loading_not_staged:
  assumes "\<not> staged e"
  shows "fst (run_loading e b w) \<noteq> Returned True"
    and "db (snd (run_loading e b w)) = db w"
    and "\<exists>k \<le> 4. events (snd (run_loading e b w)) = events w @ take k (load_events e)"
proof -
  show "fst (run_loading e b w) \<noteq> Returned True"
    using assms
    by (auto simp: staged_def run_loading_def to_csv_def copy_to_docker_def Let_def
        split: option.splits cp_outcome.splits)
  show "db (snd (run_loading e b w)) = db w"
    using assms
    by (auto simp: staged_def run_loading_def to_csv_def copy_to_docker_def Let_def
        split: option.splits cp_outcome.splits)
  have "events (snd (run_loading e b w)) = events w @ take 1 (load_events e)
      \<or> events (snd (run_loading e b w)) = events w @ take 2 (load_events e)
      \<or> events (snd (run_loading e b w)) = events w @ take 3 (load_events e)
      \<or> events (snd (run_loading e b w)) = events w @ take 4 (load_events e)"
    using assms
    by (auto simp: staged_def run_loading_def to_csv_def copy_to_docker_def Let_def
        load_events_def split: option.splits cp_outcome.splits)
  then show "\<exists>k \<le> 4. events (snd (run_loading e b w)) = events w @ take k (load_events e)"
  proof (elim disjE)
    assume "events (snd (run_loading e b w)) = events w @ take 1 (load_events e)"
    then show ?thesis by (intro exI [of _ 1]) simp
  next
    assume "events (snd (run_loading e b w)) = events w @ take 2 (load_events e)"
    then show ?thesis by (intro exI [of _ 2]) simp
  next
    assume "events (snd (run_loading e b w)) = events w @ take 3 (load_events e)"
    then show ?thesis by (intro exI [of _ 3]) simp
  next
    assume "events (snd (run_loading e b w)) = events w @ take 4 (load_events e)"
    then show ?thesis by (intro exI [of _ 4]) simp
  qed
qed

lemma load_nodes_csv_phase:
  "import_files w ''nodes_latest.csv'' = Some (NodesFile (map node_to_row (batch_nodes b))) \<Longrightarrow>
     fst (load_nodes_csv (nodes_session_ok e) ''nodes_latest.csv'' w)
       = (node_phase e b (db w) \<noteq> None)"
  by (simp add: load_nodes_csv_def node_phase_def as_node_rows_def Let_def split: option.splits)

lemma early_events:
  assumes "k \<le> 4"
  shows "NodesQuery p \<notin> set (take k (load_events e))"
    and "RelationshipsQuery p \<notin> set (take k (load_events e))"
proof -
  have "set (take k (load_events e)) \<subseteq> set (take 4 (load_events e))"
    using assms by (rule set_take_subset_set_take)
  moreover have "NodesQuery p \<notin> set (take 4 (load_events e))"
    "RelationshipsQuery p \<notin> set (take 4 (load_events e))"
    by (simp_all add: load_events_def)
  ultimately show "NodesQuery p \<notin> set (take k (load_events e))"
    and "RelationshipsQuery p \<notin> set (take k (load_events e))"
    by blast+
qed

text \<open>
  C8. In every execution of \<^verbatim>\<open>run_loading\<close> the external actions are an
  initial part of the fixed sequence: write the nodes file, write the relations
  file, copy the nodes file, copy the relations file, run the node query, run the
  relationship query. When the node query runs, both files are in the import
  directory and hold the rows of the batch. The relationship query runs only
  after the node phase has succeeded; when the node phase fails (its session
  fails or a row of the query fails, which is when \<^verbatim>\<open>load_nodes_csv\<close>
  returns \<^verbatim>\<open>False\<close>) the relationship query is not run, the graph is
  unchanged and the result is not success.
\<close>

theorem run_loading_order:
  "(\<exists>k \<le> 6. events (snd (run_loading e b w)) = events w @ take k (load_events e))
   \<and> (NodesQuery ''nodes_latest.csv'' \<in> set (new_events w (snd (run_loading e b w))) \<longrightarrow>
        take 5 (new_events w (snd (run_loading e b w))) = take 5 (load_events e)
      \<and> import_files (snd (run_loading e b w)) ''nodes_latest.csv''
           = Some (NodesFile (map node_to_row (batch_nodes b)))
      \<and> import_files (snd (run_loading e b w)) ''relations_latest.csv''
           = Some (RelationsFile (map rel_to_row (batch_relations b))))
   \<and> (RelationshipsQuery ''relations_latest.csv'' \<in> set (new_events w (snd (run_loading e b w)))
        \<longrightarrow> node_phase e b (db w) \<noteq> None
          \<and> new_events w (snd (run_loading e b w)) = load_events e)
   \<and> (\<forall>w4. import_files w4 ''nodes_latest.csv''
               = Some (NodesFile (map node_to_row (batch_nodes b)))
          \<longrightarrow> fst (load_nodes_csv (nodes_session_ok e) ''nodes_latest.csv'' w4)
                = (node_phase e b (db w4) \<noteq> None))
   \<and> (node_phase e b (db w) = None \<longrightarrow>
        RelationshipsQuery ''relations_latest.csv''
          \<notin> set (new_events w (snd (run_loading e b w)))
      \<and> fst (run_loading e b w) \<noteq> Returned True
      \<and> db (snd (run_loading e b w)) = db w)"
proof (cases "staged e")
  case True
  note s = run_loading_staged [OF True, of b w]
  have l: "length (load_events e) = 6" by (simp add: load_events_def)
  have q: "RelationshipsQuery ''relations_latest.csv'' \<notin> set (take 5 (load_events e))"
    by (simp add: load_events_def)
  show ?thesis
  proof (cases "node_phase e b (db w) = None")
    case True
    have "events (snd (run_loading e b w)) = events w @ take 5 (load_events e)"
      using s(3) True by simp
    then show ?thesis
      using True s(1,2,4,5) q load_nodes_csv_phase [of _ b e]
      by (auto simp: new_events_def intro: exI [of _ 5])
  next
    case False
    have "events (snd (run_loading e b w)) = events w @ take 6 (load_events e)"
      using s(3) False by simp
    then show ?thesis
      using False s(4,5) l load_nodes_csv_phase [of _ b e]
      by (auto simp: new_events_def intro: exI [of _ 6])
  qed
next
  case False
  note n = run_loading_not_staged [OF False, of b w]
  from n(3) obtain k where k: "k \<le> 4"
    "events (snd (run_loading e b w)) = events w @ take k (load_events e)"
    by blast
  have "new_events w (snd (run_loading e b w)) = take k (load_events e)"
    using k(2) by (simp add: new_events_def)
  then show ?thesis
    using k n(1,2) early_events [OF k(1), of _ e] load_nodes_csv_phase [of _ b e]
    by (auto intro: exI [of _ k])
qed

theorem run_loading_order_witness:
  "NodesQuery ''nodes_latest.csv''
     \<in> set (new_events example_world (snd (run_loading example_env example_batch example_world)))
   \<and> RelationshipsQuery ''relations_latest.csv''
     \<in> set (new_events example_world (snd (run_loading example_env example_batch example_world)))
   \<and> new_events example_world (snd (run_loading example_env example_batch example_world))
       = load_events example_env
   \<and> import_files (snd (run_loading example_env example_batch example_world))
        ''nodes_latest.csv''
       = Some (NodesFile (map node_to_row (batch_nodes example_batch)))
   \<and> fst (load_nodes_csv (nodes_session_ok example_env) ''nodes_latest.csv''
           (snd (run_loading example_env example_batch example_world)))
       = (node_phase example_env example_batch
            (db (snd (run_loading example_env example_batch example_world))) \<noteq> None)
   \<and> node_phase (example_env\<lparr>nodes_session_ok := False\<rparr>) example_batch (db example_world)
       = None
   \<and> RelationshipsQuery ''relations_latest.csv''
     \<notin> set (new_events example_world
              (snd (run_loading (example_env\<lparr>nodes_session_ok := False\<rparr>) example_batch
                 example_world)))
   \<and> fst (run_loading (example_env\<lparr>nodes_session_ok := False\<rparr>) example_batch example_world)
       \<noteq> Returned True"
proof -
  have a: "NodesQuery ''nodes_latest.csv''
     \<in> set (new_events example_world (snd (run_loading example_env example_batch example_world)))"
    "RelationshipsQuery ''relations_latest.csv''
     \<in> set (new_events example_world (snd (run_loading example_env example_batch example_world)))"
    by code_simp+
  have b: "node_phase (example_env\<lparr>nodes_session_ok := False\<rparr>) example_batch (db example_world)
       = None"
    by (simp add: node_phase_def)
  show ?thesis
    using a b
      run_loading_order [of example_env example_batch example_world]
      run_loading_order [of "example_env\<lparr>nodes_session_ok := False\<rparr>" example_batch
        example_world]
    by blast
qed

section \<open>The node query creates a node once\<close>

lemma set_node_id [simp]: "props (set_node row l n) ''id'' = props n ''id''"
  by (simp add: set_node_def)













lemma idview_length: "idview g' = idview g \<Longrightarrow> length (gnodes g') = length (gnodes g)"
  by (metis idview_def length_map)

section \<open>The relationship query creates a relationship once\<close>

lemma idview_nth: "k < length (gnodes g) \<Longrightarrow> idview g ! k = props (gnodes g ! k) ''id''"
  by (simp add: idview_def)

lemma gnodes_idview: "gnodes g' = gnodes g \<Longrightarrow> idview g' = idview g"
  by (simp add: idview_def)

lemma matched_idview:
  assumes "idview g2 = idview g"
  shows "matched v g2 = matched v g"
proof -
  have len: "length (gnodes g2) = length (gnodes g)"
    by (rule idview_length [OF assms])
  have "has_id v (gnodes g2 ! k) = has_id v (gnodes g ! k)" if "k < length (gnodes g)" for k
  proof -
    have "props (gnodes g2 ! k) ''id'' = props (gnodes g ! k) ''id''"
      using that len assms idview_nth [of k g] idview_nth [of k g2] by simp
    then show ?thesis by (cases v) (simp_all add: has_id_def)
  qed
  then show ?thesis
    unfolding matched_def len by (intro filter_cong) simp_all
qed

lemma pairs_idview:
  assumes "idview g2 = idview g"
  shows "pairs row g2 = pairs row g"
  unfolding pairs_def matched_idview [OF assms] by (rule refl)

lemma rel_error_idview:
  assumes "idview g2 = idview g"
  shows "rel_error row g2 = rel_error row g"
  unfolding rel_error_def pairs_idview [OF assms] by (rule refl)

lemma rel_step_pairs:
  "rel_step row g =
     (if pairs row g = [] then Some g
      else if rel_error row g then None
      else Some (fold (merge_relationship (the (r_type row)) (ident_props row)) (pairs row g) g))"
proof (cases "r_type row")
  case None
  then show ?thesis
    by (simp add: rel_step_def pairs_def rel_error_def Let_def)
next
  case (Some ty)
  show ?thesis
  proof (cases "\<exists>k \<in> set ident_keys. ident_props row k = None")
    case True
    then show ?thesis
      unfolding rel_step_def pairs_def rel_error_def Let_def Some by simp
  next
    case False
    then have nf: "(\<exists>k \<in> set ident_keys. ident_props row k = None) = False"
      by simp
    show ?thesis
      unfolding rel_step_def pairs_def rel_error_def Let_def Some nf by simp
  qed
qed

lemma rel_step_None: "(rel_step row g = None) = rel_error row g"
  by (simp add: rel_step_pairs rel_error_def)

lemma merge_relationship_nodes: "gnodes (merge_relationship ty ident p g) = gnodes g"
  by (simp add: merge_relationship_def)

lemma merge_relationship_grows: "set (grels g) \<subseteq> set (grels (merge_relationship ty ident p g))"
  by (auto simp: merge_relationship_def)

lemma merge_relationship_has:
  "\<exists>r \<in> set (grels (merge_relationship ty ident p g)). rel_matches (fst p) (snd p) ty ident r"
  by (simp add: merge_relationship_def rel_matches_def)

lemma fold_merge_nodes: "gnodes (fold (merge_relationship ty ident) ps g) = gnodes g"
  by (induction ps arbitrary: g) (simp_all add: merge_relationship_nodes)

lemma fold_merge_grows: "set (grels g) \<subseteq> set (grels (fold (merge_relationship ty ident) ps g))"
proof (induction ps arbitrary: g)
  case Nil
  show ?case by simp
next
  case (Cons p ps)
  show ?case
    using Cons [of "merge_relationship ty ident p g"] merge_relationship_grows [of g ty ident p]
    by auto
qed

lemma fold_merge_closed:
  "p \<in> set ps \<Longrightarrow>
     \<exists>r \<in> set (grels (fold (merge_relationship ty ident) ps g)).
        rel_matches (fst p) (snd p) ty ident r"
proof (induction ps arbitrary: g)
  case Nil
  then show ?case by simp
next
  case (Cons q ps)
  show ?case
  proof (cases "p = q")
    case True
    obtain r where "r \<in> set (grels (merge_relationship ty ident q g))"
      "rel_matches (fst p) (snd p) ty ident r"
      using merge_relationship_has [where p = p and ty = ty and ident = ident and g = g] True
      by blast
    then show ?thesis
      using fold_merge_grows [of "merge_relationship ty ident q g" ty ident ps] by auto
  next
    case False
    then have "p \<in> set ps" using Cons.prems by simp
    from Cons.IH [OF this, of "merge_relationship ty ident q g"] show ?thesis by simp
  qed
qed


lemma rel_step_Some:
  assumes "rel_step row g = Some g'"
  shows "gnodes g' = gnodes g" and "set (grels g) \<subseteq> set (grels g')" and "closed_row row g'"
proof -
  let ?F = "fold (merge_relationship (the (r_type row)) (ident_props row)) (pairs row g) g"
  have c: "g' = g \<and> pairs row g = [] \<or> g' = ?F"
    using assms by (simp add: rel_step_pairs split: if_splits)
  show n: "gnodes g' = gnodes g"
    using c fold_merge_nodes [of "the (r_type row)" "ident_props row" "pairs row g" g] by auto
  show "set (grels g) \<subseteq> set (grels g')"
    using c fold_merge_grows [of g "the (r_type row)" "ident_props row" "pairs row g"] by auto
  have p: "pairs row g' = pairs row g"
    by (rule pairs_idview [OF gnodes_idview [OF n]])
  show "closed_row row g'"
    unfolding closed_row_def p
    using c fold_merge_closed [of _ "pairs row g" "the (r_type row)" "ident_props row" g]
    by auto
qed

lemma closed_row_mono:
  assumes "closed_row row g" and "idview g' = idview g" and "set (grels g) \<subseteq> set (grels g')"
  shows "closed_row row g'"
  using assms unfolding closed_row_def pairs_idview [OF assms(2)] by blast


lemma run_rel_Some:
  "run_rows rel_step rows g = Some g' \<Longrightarrow>
     gnodes g' = gnodes g \<and> set (grels g) \<subseteq> set (grels g')
     \<and> (\<forall>row \<in> set rows. closed_row row g' \<and> \<not> rel_error row g)"
proof (induction rows arbitrary: g)
  case Nil
  then show ?case by simp
next
  case (Cons r rows)
  then obtain g1 where s: "rel_step r g = Some g1" "run_rows rel_step rows g1 = Some g'"
    by (auto split: option.splits)
  note a = rel_step_Some [OF s(1)]
  note b = Cons.IH [OF s(2)]
  have i: "idview g1 = idview g" "idview g' = idview g1"
    using a(1) b by (blast intro: gnodes_idview)+
  have b1: "gnodes g' = gnodes g1" and b2: "set (grels g1) \<subseteq> set (grels g')"
    and b3: "\<forall>row \<in> set rows. closed_row row g' \<and> \<not> rel_error row g1"
    using b by blast+
  have c1: "closed_row r g'"
    by (rule closed_row_mono [OF a(3) i(2) b2])
  have c2: "\<not> rel_error r g"
    using s(1) rel_step_None [of r g] by simp
  have c3: "\<forall>row \<in> set rows. closed_row row g' \<and> \<not> rel_error row g"
    using b3 rel_error_idview [OF i(1)] by simp
  have c4: "gnodes g' = gnodes g"
    using a(1) b1 by simp
  have c5: "set (grels g) \<subseteq> set (grels g')"
    using a(2) b2 by (rule subset_trans)
  show ?case
    using c1 c2 c3 c4 c5 by simp
qed



section \<open>Loading a batch twice\<close>












section \<open>A relationship whose endpoint is missing\<close>

lemma run_rows_append:
  "run_rows step (xs @ ys) g =
     (case run_rows step xs g of None \<Rightarrow> None | Some g' \<Rightarrow> run_rows step ys g')"
  by (induction xs arbitrary: g) (simp_all split: option.splits)

lemma product_Nil_right: "List.product xs [] = []"
  by (induction xs) simp_all

lemma rel_step_unmatched:
  assumes "matched (r_start_id row) g = [] \<or> matched (r_end_id row) g = []"
  shows "rel_step row g = Some g"
proof -
  have "pairs row g = []"
    using assms by (auto simp: pairs_def product_Nil_right)
  then show ?thesis by (simp add: rel_step_pairs)
qed

lemma run_rel_skips:
  assumes "matched (r_start_id row) g = [] \<or> matched (r_end_id row) g = []"
  shows "run_rows rel_step (rs1 @ row # rs2) g = run_rows rel_step (rs1 @ rs2) g"
proof (cases "run_rows rel_step rs1 g")
  case None
  then show ?thesis by (simp add: run_rows_append)
next
  case (Some g')
  have iv: "idview g' = idview g"
    using run_rel_Some [OF Some] gnodes_idview [of g' g] by simp
  have "matched (r_start_id row) g' = [] \<or> matched (r_end_id row) g' = []"
    using assms by (simp only: matched_idview [OF iv])
  then have "rel_step row g' = Some g'"
    by (rule rel_step_unmatched)
  then show ?thesis using Some by (simp add: run_rows_append)
qed

text \<open>
  C7, as the claim states it, fails. The example batch has a relation from the
  node of \<^verbatim>\<open>Apple\<close> to the id \<^verbatim>\<open>uuid-globex\<close>, which no node of the
  batch or of the (empty) store has. Loading the batch returns \<^verbatim>\<open>True\<close>,
  the other relation is loaded, and the store holds no relationship for the
  relation with the missing endpoint: it is dropped without a failure.
\<close>

theorem missing_endpoint_dropped_silently:
  "end_id (batch_relations example_batch ! 1) = Some ''uuid-globex''
   \<and> Some ''uuid-globex'' \<notin> set (map ent_id (batch_nodes example_batch))
   \<and> gnodes (db example_world) = []
   \<and> fst (run_loading example_env example_batch example_world) = Returned True
   \<and> map rtype (grels (db (snd (run_loading example_env example_batch example_world))))
       = [''HAS_CEO'']
   \<and> map src (grels (db (snd (run_loading example_env example_batch example_world)))) = [0]
   \<and> map tgt (grels (db (snd (run_loading example_env example_batch example_world)))) = [1]"
proof -
  have "end_id (batch_relations example_batch ! 1) = Some ''uuid-globex''"
    "Some ''uuid-globex'' \<notin> set (map ent_id (batch_nodes example_batch))"
    "gnodes (db example_world) = []"
    by (simp_all add: example_batch_def example_world_def empty_graph_def)
  moreover have "fst (run_loading example_env example_batch example_world) = Returned True"
    by code_simp
  moreover have
    "map rtype (grels (db (snd (run_loading example_env example_batch example_world))))
       = [''HAS_CEO'']"
    "map src (grels (db (snd (run_loading example_env example_batch example_world)))) = [0]"
    "map tgt (grels (db (snd (run_loading example_env example_batch example_world)))) = [1]"
    by code_simp+
  ultimately show ?thesis by blast
qed

text \<open>
  C7, amended. A row of the relationship file whose \<open>start_id\<close> or \<open>end_id\<close>
  matches no node of the graph (the nodes of the same batch are in the graph by
  then) is skipped: the row does not fail and leaves the graph as it is, the
  query over the whole file ends as it would without the row, and so does
  \<^verbatim>\<open>load_relationships_csv\<close>: same result, same graph.
\<close>

theorem missing_endpoint_skipped:
  assumes "matched (r_start_id row) (db w) = [] \<or> matched (r_end_id row) (db w) = []"
  shows "rel_step row (db w) = Some (db w)
   \<and> run_rows rel_step (rs1 @ row # rs2) (db w) = run_rows rel_step (rs1 @ rs2) (db w)
   \<and> (import_files w p = Some (RelationsFile (rs1 @ row # rs2)) \<longrightarrow>
        fst (load_relationships_csv ok p w)
          = fst (load_relationships_csv ok p
                  (w\<lparr>import_files := (import_files w)(p \<mapsto> RelationsFile (rs1 @ rs2))\<rparr>))
      \<and> db (snd (load_relationships_csv ok p w))
          = db (snd (load_relationships_csv ok p
                  (w\<lparr>import_files := (import_files w)(p \<mapsto> RelationsFile (rs1 @ rs2))\<rparr>))))"
proof -
  note a = rel_step_unmatched [OF assms]
  note b = run_rel_skips [OF assms, of rs1 rs2]
  show ?thesis
    using a b
    by (simp add: load_relationships_csv_def as_rel_rows_def Let_def split: option.splits)
qed

theorem missing_endpoint_skipped_witness:
  "matched (Some ''uuid-globex'')
       (db (snd (run_loading example_env example_batch example_world))) = []
   \<and> rel_step (rel_to_row (batch_relations example_batch ! 1))
       (db (snd (run_loading example_env example_batch example_world)))
       = Some (db (snd (run_loading example_env example_batch example_world)))
   \<and> run_rows rel_step
         ([rel_to_row (batch_relations example_batch ! 0)]
            @ rel_to_row (batch_relations example_batch ! 1) # [])
         (db (snd (run_loading example_env example_batch example_world)))
       = run_rows rel_step ([rel_to_row (batch_relations example_batch ! 0)] @ [])
         (db (snd (run_loading example_env example_batch example_world)))
   \<and> import_files (snd (run_loading example_env example_batch example_world))
         ''relations_latest.csv''
       = Some (RelationsFile ([rel_to_row (batch_relations example_batch ! 0)]
                 @ rel_to_row (batch_relations example_batch ! 1) # []))
   \<and> fst (load_relationships_csv True ''relations_latest.csv''
           (snd (run_loading example_env example_batch example_world)))
       = fst (load_relationships_csv True ''relations_latest.csv''
           ((snd (run_loading example_env example_batch example_world))
             \<lparr>import_files :=
                (import_files (snd (run_loading example_env example_batch example_world)))
                  (''relations_latest.csv'' \<mapsto>
                     RelationsFile ([rel_to_row (batch_relations example_batch ! 0)] @ []))\<rparr>))"
proof -
  let ?w = "snd (run_loading example_env example_batch example_world)"
  have e: "r_end_id (rel_to_row (batch_relations example_batch ! 1)) = Some ''uuid-globex''"
    by (simp add: example_batch_def rel_to_row_def cell_def)
  have m: "matched (Some ''uuid-globex'') (db ?w) = []"
    by code_simp
  have h: "matched (r_start_id (rel_to_row (batch_relations example_batch ! 1))) (db ?w) = []
         \<or> matched (r_end_id (rel_to_row (batch_relations example_batch ! 1))) (db ?w) = []"
    using m e by simp
  have f: "import_files ?w ''relations_latest.csv''
       = Some (RelationsFile ([rel_to_row (batch_relations example_batch ! 0)]
                 @ rel_to_row (batch_relations example_batch ! 1) # []))"
    by code_simp
  show ?thesis
    using m f missing_endpoint_skipped [OF h,
        of "[rel_to_row (batch_relations example_batch ! 0)]" "[]" "''relations_latest.csv''" True]
    by blast
qed

end
